theory Spec2Isabelle
  imports Main "HOL-Library.Word"
begin

text \<open>
  A model of the Toot-Worker: a scheduled worker that fetches an RSS feed, turns each
  item's HTML description into plain text and posts the items of the last thirty minutes
  to a Mastodon instance, remembering the link of the last post in a key-value namespace.

  \<^verbatim>\<open>src/main.js\<close> holds two versions of the worker, one after the other. Where both
  declare a function the later declaration (from line 244 on) is the one modelled; the two
  differ in how the feed is parsed and in \<^verbatim>\<open>convertHtmlToText\<close>, which the later version
  starts with \<^verbatim>\<open>decodeHtmlEntities\<close>. \<^verbatim>\<open>src/unnamed/part_002\<close> has the feed parser of
  the later version and the converter of the earlier one, and \<^verbatim>\<open>src/unnamed/part_001\<close>
  converts a parsed DOM tree instead of a string; its converter is modelled as
  \<open>convertHtmlToTextDom\<close>.
  \<^verbatim>\<open>console.log\<close> and \<^verbatim>\<open>console.error\<close> are left out: nothing reads the log.
\<close>

section \<open>JavaScript strings\<close>

text \<open>
  A JavaScript string is a sequence of 16-bit code units. The entity table of
  \<^verbatim>\<open>decodeHtmlEntities\<close> produces code units above 255 (U+2019 and friends), so the
  8-bit \<^typ>\<open>char\<close> of HOL cannot carry the strings of this program; \<open>js\<close> embeds an ASCII
  literal.
\<close>

type_synonym jschar = "16 word"
type_synonym jsstring = "jschar list"

definition js :: "string \<Rightarrow> jsstring" where
  "js s = map (\<lambda>c. of_nat (of_char c)) s"

abbreviation NEWLINE :: jschar where "NEWLINE \<equiv> 0x0A"
abbreviation QUOTE :: jschar where "QUOTE \<equiv> 0x22"
abbreviation AMP :: jschar where "AMP \<equiv> 0x26"
abbreviation LT :: jschar where "LT \<equiv> 0x3C"
abbreviation GT :: jschar where "GT \<equiv> 0x3E"

text \<open>
  \<^verbatim>\<open>String.prototype.trim\<close> removes the code units of WhiteSpace and LineTerminator
  from both ends.
\<close>

definition isTrimSpace :: "jschar \<Rightarrow> bool" where
  "isTrimSpace c \<longleftrightarrow>
     c = 0x09 \<or> c = 0x0A \<or> c = 0x0B \<or> c = 0x0C \<or> c = 0x0D \<or> c = 0x20 \<or> c = 0xA0 \<or>
     c = 0x1680 \<or> (0x2000 \<le> c \<and> c \<le> 0x200A) \<or> c = 0x2028 \<or> c = 0x2029 \<or>
     c = 0x202F \<or> c = 0x205F \<or> c = 0x3000 \<or> c = 0xFEFF"

definition trim :: "jsstring \<Rightarrow> jsstring" where
  "trim s = rev (dropWhile isTrimSpace (rev (dropWhile isTrimSpace s)))"

section \<open>Regular expressions as backtracking matchers\<close>

text \<open>
  Every regular expression of the source is written with the combinators below, one
  combinator per regex construct, in continuation-passing style: a matcher takes the rest
  of the pattern as a continuation and the text at the current position, and returns the
  continuation's result for the first way of matching that the backtracking order of
  JavaScript tries and that lets the rest of the pattern succeed. None of the source's
  patterns has an anchor, a word boundary, a look-around or a back reference, so a match
  at a position depends on the text from that position on only.
\<close>

type_synonym 'a cont = "jsstring \<Rightarrow> 'a option"

definition lit :: "jsstring \<Rightarrow> 'a cont \<Rightarrow> 'a cont" where
  "lit p k s = (if take (length p) s = p then k (drop (length p) s) else None)"

text \<open>
  With the \<^verbatim>\<open>i\<close> flag two code units match when their canonical forms are equal. The
  patterns of the source are ASCII, and JavaScript never canonicalises a code unit
  from 128 on to an ASCII one, so upper-casing the ASCII letters decides every comparison
  the source's patterns make.
\<close>

definition canonicalize :: "jschar \<Rightarrow> jschar" where
  "canonicalize c = (if 0x61 \<le> c \<and> c \<le> 0x7A then c - 0x20 else c)"

definition litCI :: "jsstring \<Rightarrow> 'a cont \<Rightarrow> 'a cont" where
  "litCI p k s =
     (if map canonicalize (take (length p) s) = map canonicalize p
      then k (drop (length p) s) else None)"

definition alt :: "'a cont \<Rightarrow> 'a cont \<Rightarrow> 'a cont" where
  "alt m1 m2 s = (case m1 s of Some r \<Rightarrow> Some r | None \<Rightarrow> m2 s)"

text \<open>Greedy \<^verbatim>\<open>[class]*\<close>: the longest run first, then shorter ones.\<close>

fun star :: "(jschar \<Rightarrow> bool) \<Rightarrow> 'a cont \<Rightarrow> 'a cont" where
  "star P k [] = k []"
| "star P k (c # cs) =
     (if P c then (case star P k cs of Some r \<Rightarrow> Some r | None \<Rightarrow> k (c # cs))
      else k (c # cs))"

text \<open>Greedy \<^verbatim>\<open>[class]+\<close>.\<close>

fun plus :: "(jschar \<Rightarrow> bool) \<Rightarrow> 'a cont \<Rightarrow> 'a cont" where
  "plus P k [] = None"
| "plus P k (c # cs) = (if P c then star P k cs else None)"

text \<open>Greedy capturing \<^verbatim>\<open>([class]*)\<close>; \<open>acc\<close> is what the group has taken so far.\<close>

fun capStar :: "(jschar \<Rightarrow> bool) \<Rightarrow> (jsstring \<Rightarrow> 'a cont) \<Rightarrow> jsstring \<Rightarrow> 'a cont" where
  "capStar P k acc [] = k acc []"
| "capStar P k acc (c # cs) =
     (if P c
      then (case capStar P k (acc @ [c]) cs of Some r \<Rightarrow> Some r | None \<Rightarrow> k acc (c # cs))
      else k acc (c # cs))"

text \<open>Greedy capturing \<^verbatim>\<open>([class]+)\<close>.\<close>

definition capPlus :: "(jschar \<Rightarrow> bool) \<Rightarrow> (jsstring \<Rightarrow> 'a cont) \<Rightarrow> 'a cont" where
  "capPlus P k = capStar P (\<lambda>g. if g = [] then (\<lambda>s. None) else k g) []"

text \<open>Lazy capturing \<^verbatim>\<open>([class]*?)\<close>: the shortest run first.\<close>

fun capLazy :: "(jschar \<Rightarrow> bool) \<Rightarrow> (jsstring \<Rightarrow> 'a cont) \<Rightarrow> jsstring \<Rightarrow> 'a cont" where
  "capLazy P k acc [] = k acc []"
| "capLazy P k acc (c # cs) =
     (case k acc (c # cs) of
        Some r \<Rightarrow> Some r
      | None \<Rightarrow> if P c then capLazy P k (acc @ [c]) cs else None)"

text \<open>The character classes of the source's patterns.\<close>

definition notGt :: "jschar \<Rightarrow> bool" where
  "notGt c \<longleftrightarrow> c \<noteq> GT"

definition notQuote :: "jschar \<Rightarrow> bool" where
  "notQuote c \<longleftrightarrow> c \<noteq> QUOTE"

definition anyChar :: "jschar \<Rightarrow> bool" where
  "anyChar c \<longleftrightarrow> True"

definition dotChar :: "jschar \<Rightarrow> bool" where
  "dotChar c \<longleftrightarrow> c \<noteq> 0x0A \<and> c \<noteq> 0x0D \<and> c \<noteq> 0x2028 \<and> c \<noteq> 0x2029"

definition isDigit :: "jschar \<Rightarrow> bool" where
  "isDigit c \<longleftrightarrow> 0x30 \<le> c \<and> c \<le> 0x39"

definition isHexDigit :: "jschar \<Rightarrow> bool" where
  "isHexDigit c \<longleftrightarrow>
     (0x61 \<le> c \<and> c \<le> 0x66) \<or> (0x41 \<le> c \<and> c \<le> 0x46) \<or> (0x30 \<le> c \<and> c \<le> 0x39)"

text \<open>
  \<^verbatim>\<open>str.replace(regex, replacement)\<close> with the \<^verbatim>\<open>g\<close> flag: the pattern is tried at
  each position from left to right; a match is replaced and the search goes on behind
  it, an unmatched code unit is copied. After an empty match the search moves on by one
  code unit. The matcher yields the captured groups and the text behind the match; the
  replacement is computed from the groups.
\<close>

function replaceAll :: "('c \<times> jsstring) cont \<Rightarrow> ('c \<Rightarrow> jsstring) \<Rightarrow> jsstring \<Rightarrow> jsstring" where
  "replaceAll re f [] = (case re [] of Some (g, rest) \<Rightarrow> f g | None \<Rightarrow> [])"
| "replaceAll re f (c # cs) =
     (case re (c # cs) of
        Some (g, rest) \<Rightarrow>
          if length rest < length (c # cs) then f g @ replaceAll re f rest
          else f g @ c # replaceAll re f cs
      | None \<Rightarrow> c # replaceAll re f cs)"
  by pat_completeness auto
termination
  by (relation "measure (\<lambda>(re, f, s). length s)") auto

section \<open>Decoding character references\<close>

text \<open>
  \<^verbatim>\<open>String.fromCharCode(x)\<close> converts its argument to a Number and takes it modulo
  \<open>2^16\<close>. The argument is a string of digits, so the Number is the double nearest to
  the digits' value (ties to even); from \<open>2^53\<close> on this differs from the value itself.
  A value too large for a double is Infinity and gives code unit 0, which is also what the
  rounding below gives there, since it then yields a multiple of \<open>2^16\<close>.
\<close>

function bitLength :: "int \<Rightarrow> nat" where
  "bitLength n = (if n \<le> 0 then 0 else Suc (bitLength (n div 2)))"
  by pat_completeness auto
termination
  by (relation "measure nat") auto

declare bitLength.simps [simp del]

definition toNumber :: "int \<Rightarrow> int" where
  "toNumber n =
     (if n < 2 ^ 53 then n
      else let e = bitLength n - 53; q = n div 2 ^ e; r = n mod 2 ^ e; half = 2 ^ (e - 1)
           in (if half < r \<or> (r = half \<and> odd q) then q + 1 else q) * 2 ^ e)"

definition fromCharCode :: "int \<Rightarrow> jsstring" where
  "fromCharCode n = [of_int (toNumber n)]"

definition digitValue :: "jschar \<Rightarrow> int" where
  "digitValue c =
     (if 0x61 \<le> c \<and> c \<le> 0x66 then uint c - 87
      else if 0x41 \<le> c \<and> c \<le> 0x46 then uint c - 55
      else uint c - 48)"

definition parseDigits :: "int \<Rightarrow> jsstring \<Rightarrow> int" where
  "parseDigits radix ds = foldl (\<lambda>a d. radix * a + digitValue d) 0 ds"

definition reLiteral :: "jsstring \<Rightarrow> (unit \<times> jsstring) cont" where
  "reLiteral p = lit p (\<lambda>rest. Some ((), rest))"

definition replaceLiteral :: "jsstring \<Rightarrow> jsstring \<Rightarrow> jsstring \<Rightarrow> jsstring" where
  "replaceLiteral p r s = replaceAll (reLiteral p) (\<lambda>u. r) s"

text \<open>\<^verbatim>\<open>/&#(\d+);/g\<close> and \<^verbatim>\<open>/&#x([a-fA-F0-9]+);/g\<close>.\<close>

definition reDecimalRef :: "(jsstring \<times> jsstring) cont" where
  "reDecimalRef =
     lit (js ''&#'') (capPlus isDigit (\<lambda>dec. lit (js '';'') (\<lambda>rest. Some (dec, rest))))"

definition reHexRef :: "(jsstring \<times> jsstring) cont" where
  "reHexRef =
     lit (js ''&#x'') (capPlus isHexDigit (\<lambda>hex. lit (js '';'') (\<lambda>rest. Some (hex, rest))))"

text \<open>The chain of \<^verbatim>\<open>replace\<close> calls, in the order of the source.\<close>

definition decodeHtmlEntities :: "jsstring \<Rightarrow> jsstring" where
  "decodeHtmlEntities str =
     foldl (\<lambda>s pass. pass s) str
       [replaceLiteral (js ''&lt;'') [LT],
        replaceLiteral (js ''&gt;'') [GT],
        replaceLiteral (js ''&amp;'') [AMP],
        replaceLiteral (js ''&quot;'') [QUOTE],
        replaceLiteral (js ''&#39;'') [0x27],
        replaceLiteral (js ''&rsquo;'') [0x2019],
        replaceLiteral (js ''&lsquo;'') [0x2018],
        replaceLiteral (js ''&ldquo;'') [0x201C],
        replaceLiteral (js ''&rdquo;'') [0x201D],
        replaceLiteral (js ''&mdash;'') [0x2014],
        replaceLiteral (js ''&ndash;'') [0x2013],
        replaceLiteral (js ''&copy;'') [0xA9],
        replaceLiteral (js ''&reg;'') [0xAE],
        replaceLiteral (js ''&euro;'') [0x20AC],
        replaceLiteral (js ''&pound;'') [0xA3],
        replaceLiteral (js ''&yen;'') [0xA5],
        replaceLiteral (js ''&times;'') [0xD7],
        replaceLiteral (js ''&divide;'') [0xF7],
        replaceAll reDecimalRef (\<lambda>dec. fromCharCode (parseDigits 10 dec)),
        replaceAll reHexRef (\<lambda>hex. fromCharCode (parseDigits 16 hex))]"

section \<open>HTML to plain text\<close>

text \<open>\<^verbatim>\<open>/<\/?(?:p|div|br)[^>]*>/g\<close>, replaced by a newline.\<close>

definition reBlock :: "(unit \<times> jsstring) cont" where
  "reBlock =
     (let close = star notGt (lit [GT] (\<lambda>rest. Some ((), rest)));
          name = alt (lit (js ''p'') close) (alt (lit (js ''div'') close) (lit (js ''br'') close))
      in lit [LT] (alt (lit (js ''/'') name) name))"

text \<open>\<^verbatim>\<open>/<a[^>]*href="([^"]+)"[^>]*>(.*?)<\/a>/gi\<close>, replaced by \<^verbatim>\<open>"$2 ($1)"\<close>.\<close>

definition reAnchor :: "((jsstring \<times> jsstring) \<times> jsstring) cont" where
  "reAnchor =
     litCI (js ''<a'') (star notGt (litCI (js ''href='' @ [QUOTE])
       (capPlus notQuote (\<lambda>href. litCI [QUOTE] (star notGt (litCI [GT]
         (capLazy dotChar (\<lambda>text. litCI (js ''</a>'') (\<lambda>rest. Some ((href, text), rest))) [])))))))"

text \<open>
  \<^verbatim>\<open>/<img[^>]*alt="([^"]*)"[^>]*src="([^"]+)"[^>]*>/gi\<close>, replaced by
  \<^verbatim>\<open>"[$1] ($2)"\<close>.
\<close>

definition reImg :: "((jsstring \<times> jsstring) \<times> jsstring) cont" where
  "reImg =
     litCI (js ''<img'') (star notGt (litCI (js ''alt='' @ [QUOTE])
       (capStar notQuote (\<lambda>alt. litCI [QUOTE] (star notGt (litCI (js ''src='' @ [QUOTE])
         (capPlus notQuote (\<lambda>src. litCI [QUOTE] (star notGt (litCI [GT]
           (\<lambda>rest. Some ((alt, src), rest))))))))) [])))"

text \<open>\<^verbatim>\<open>/<[^>]+>/g\<close>, replaced by the empty string.\<close>

definition reTag :: "(unit \<times> jsstring) cont" where
  "reTag = lit [LT] (plus notGt (lit [GT] (\<lambda>rest. Some ((), rest))))"

text \<open>
  The conversion without entity decoding: \<^verbatim>\<open>convertHtmlToText\<close> as the first
  declaration of \<^verbatim>\<open>src/main.js\<close> (line 153) has it.
\<close>

definition convertTags :: "jsstring \<Rightarrow> jsstring" where
  "convertTags html =
     trim (replaceAll reTag (\<lambda>u. [])
       (replaceAll reImg (\<lambda>(alt, src). js ''['' @ alt @ js ''] ('' @ src @ js '')'')
         (replaceAll reAnchor (\<lambda>(href, text). text @ js '' ('' @ href @ js '')'')
           (replaceAll reBlock (\<lambda>u. [NEWLINE]) html))))"

text \<open>
  \<^verbatim>\<open>convertHtmlToText\<close> as the later declaration of \<^verbatim>\<open>src/main.js\<close> (line 435) has
  it: the entities are decoded first, then the same four passes and the trim.
\<close>

definition convertHtmlToText :: "jsstring \<Rightarrow> jsstring" where
  "convertHtmlToText html = convertTags (decodeHtmlEntities html)"

section \<open>Feed parsing\<close>

text \<open>
  \<^verbatim>\<open>new RegExp(`<${tagName}[^>]*>([\\s\\S]*?)</${tagName}>`, "gi")\<close>; the tag names the
  source passes (\<^verbatim>\<open>item\<close>, \<^verbatim>\<open>description\<close>, \<^verbatim>\<open>link\<close>, \<^verbatim>\<open>pubDate\<close>) have no regex
  metacharacter.
\<close>

definition reElement :: "jsstring \<Rightarrow> (jsstring \<times> jsstring) cont" where
  "reElement tagName =
     litCI (LT # tagName) (star notGt (litCI [GT]
       (capLazy anyChar (\<lambda>inner. litCI (js ''</'' @ tagName @ [GT]) (\<lambda>rest. Some (inner, rest))) [])))"

text \<open>
  The \<^verbatim>\<open>regex.exec\<close> loop of \<^verbatim>\<open>extractElements\<close>: each match's first group is pushed
  and the search goes on behind the match. A match of \<open>reElement\<close> is never empty
  (it starts with \<^verbatim>\<open><\<close>), so the loop always moves on; the model stops at a match that
  would not.
\<close>

function execAll :: "('c \<times> jsstring) cont \<Rightarrow> jsstring \<Rightarrow> 'c list" where
  "execAll re [] = (case re [] of Some (g, rest) \<Rightarrow> [g] | None \<Rightarrow> [])"
| "execAll re (c # cs) =
     (case re (c # cs) of
        Some (g, rest) \<Rightarrow> if length rest < length (c # cs) then g # execAll re rest else [g]
      | None \<Rightarrow> execAll re cs)"
  by pat_completeness auto
termination
  by (relation "measure (\<lambda>(re, s). length s)") auto

definition extractElements :: "jsstring \<Rightarrow> jsstring \<Rightarrow> jsstring list" where
  "extractElements xml tagName = execAll (reElement tagName) xml"

text \<open>\<^verbatim>\<open>xml.match(regex)\<close> without the \<^verbatim>\<open>g\<close> flag: the leftmost match.\<close>

fun firstMatch :: "('c \<times> jsstring) cont \<Rightarrow> jsstring \<Rightarrow> 'c option" where
  "firstMatch re [] = (case re [] of Some (g, rest) \<Rightarrow> Some g | None \<Rightarrow> None)"
| "firstMatch re (c # cs) =
     (case re (c # cs) of Some (g, rest) \<Rightarrow> Some g | None \<Rightarrow> firstMatch re cs)"

definition extractElementValue :: "jsstring \<Rightarrow> jsstring \<Rightarrow> jsstring option" where
  "extractElementValue xml tagName =
     (case firstMatch (reElement tagName) xml of Some g \<Rightarrow> Some (trim g) | None \<Rightarrow> None)"

text \<open>\<^verbatim>\<open>value || ""\<close> on a string or \<^verbatim>\<open>null\<close>.\<close>

definition orEmpty :: "jsstring option \<Rightarrow> jsstring" where
  "orEmpty v = (case v of None \<Rightarrow> [] | Some s \<Rightarrow> s)"

section \<open>Dates\<close>

text \<open>
  A \<^verbatim>\<open>Date\<close> holds a time value: a whole number of milliseconds of at most
  \<open>8.64e15\<close> in absolute value, or NaN for an invalid date (\<open>None\<close>). The relational
  operators compare the time values as Numbers, and every comparison with NaN is false.
\<close>

type_synonym date = "int option"

definition timeClip :: "int \<Rightarrow> date" where
  "timeClip t = (if \<bar>t\<bar> \<le> 8640000000000000 then Some t else None)"

definition dateLess :: "date \<Rightarrow> date \<Rightarrow> bool" where
  "dateLess a b = (case a of None \<Rightarrow> False | Some x \<Rightarrow> (case b of None \<Rightarrow> False | Some y \<Rightarrow> x < y))"

section \<open>The runtime: network, store and clock\<close>

datatype error = Error jsstring | NetworkError | StoreError

record response =
  ok :: bool
  statusText :: jsstring
  responseText :: jsstring

text \<open>
  What the worker does to the outside: the requests it sends and the operations on the
  key-value namespace, in order. \<open>FetchPost url token content\<close> is the POST of
  \<^verbatim>\<open>publishToMastodon\<close>; the constant fields of its JSON body are left out.
\<close>

datatype event =
    FetchGet jsstring
  | FetchPost jsstring jsstring jsstring
  | KvGet jsstring
  | KvPut jsstring jsstring

record world =
  kv :: "jsstring \<rightharpoonup> jsstring"
  trace :: "event list"

text \<open>
  What the outside answers. The \<open>n\<close>-th POST, \<^verbatim>\<open>get\<close> and \<^verbatim>\<open>put\<close> of a run may each
  fail or succeed on its own. \<open>urlParses\<close> says whether \<^verbatim>\<open>new URL(url)\<close> returns,
  \<open>dateParse\<close> is \<^verbatim>\<open>new Date(string)\<close>, \<open>clock\<close> the time value of \<^verbatim>\<open>new Date()\<close>.
  The body of a response that has arrived can be read: \<^verbatim>\<open>response.text()\<close> is not taken
  to reject.
\<close>

record runtime =
  urlParses :: "jsstring \<Rightarrow> bool"
  dateParse :: "jsstring \<Rightarrow> date"
  clock :: int
  fetchGet :: "jsstring \<Rightarrow> error + response"
  fetchPost :: "nat \<Rightarrow> jsstring \<Rightarrow> jsstring \<Rightarrow> jsstring \<Rightarrow> error + response"
  kvGetFails :: "nat \<Rightarrow> bool"
  kvPutFails :: "nat \<Rightarrow> bool"

record env =
  RSS_FEED_URL :: jsstring
  MASTODON_INSTANCE :: jsstring
  ACCESS_TOKEN :: jsstring

fun isPost :: "event \<Rightarrow> bool" where
  "isPost (FetchPost u t c) = True"
| "isPost e = False"

fun isGet :: "event \<Rightarrow> bool" where
  "isGet (KvGet k) = True"
| "isGet e = False"

fun isPut :: "event \<Rightarrow> bool" where
  "isPut (KvPut k v) = True"
| "isPut e = False"

definition posts :: "world \<Rightarrow> event list" where
  "posts w = filter isPost (trace w)"

definition gets :: "world \<Rightarrow> event list" where
  "gets w = filter isGet (trace w)"

definition puts :: "world \<Rightarrow> event list" where
  "puts w = filter isPut (trace w)"

definition emit :: "event \<Rightarrow> world \<Rightarrow> world" where
  "emit e w = w\<lparr>trace := trace w @ [e]\<rparr>"

text \<open>
  \<^verbatim>\<open>kvNamespace.get\<close> and \<^verbatim>\<open>kvNamespace.put\<close>. A \<^verbatim>\<open>put\<close> that fails is taken to
  leave the namespace as it was; one that succeeds is seen by every later \<^verbatim>\<open>get\<close>.
\<close>

definition kvGet :: "runtime \<Rightarrow> jsstring \<Rightarrow> world \<Rightarrow> (error + jsstring option) \<times> world" where
  "kvGet rt key w =
     (if kvGetFails rt (length (gets w)) then (Inl StoreError, emit (KvGet key) w)
      else (Inr (kv w key), emit (KvGet key) w))"

definition kvPut :: "runtime \<Rightarrow> jsstring \<Rightarrow> jsstring \<Rightarrow> world \<Rightarrow> (error + unit) \<times> world" where
  "kvPut rt key v w =
     (if kvPutFails rt (length (puts w)) then (Inl StoreError, emit (KvPut key v) w)
      else (Inr (), emit (KvPut key v) (w\<lparr>kv := (kv w)(key \<mapsto> v)\<rparr>)))"

section \<open>The worker\<close>

definition LAST_POST_KEY :: jsstring where
  "LAST_POST_KEY = js ''last_post''"

text \<open>
  \<^verbatim>\<open>isPostAlreadyPublished\<close>: \<^verbatim>\<open>lastPublishedLink === link\<close> on the stored string or
  \<^verbatim>\<open>null\<close>; the \<^verbatim>\<open>catch\<close> returns \<^verbatim>\<open>false\<close>.
\<close>

definition isPostAlreadyPublished :: "runtime \<Rightarrow> jsstring \<Rightarrow> world \<Rightarrow> (error + bool) \<times> world" where
  "isPostAlreadyPublished rt link w =
     (case kvGet rt LAST_POST_KEY w of
        (Inl e, w') \<Rightarrow> (Inr False, w')
      | (Inr lastPublishedLink, w') \<Rightarrow> (Inr (lastPublishedLink = Some link), w'))"

text \<open>\<^verbatim>\<open>savePublishedPost\<close>: the \<^verbatim>\<open>catch\<close> logs only.\<close>

definition savePublishedPost :: "runtime \<Rightarrow> jsstring \<Rightarrow> world \<Rightarrow> (error + unit) \<times> world" where
  "savePublishedPost rt link w =
     (case kvPut rt LAST_POST_KEY link w of
        (Inl e, w') \<Rightarrow> (Inr (), w')
      | (Inr u, w') \<Rightarrow> (Inr (), w'))"

text \<open>
  The \<^verbatim>\<open>try\<close> block of \<^verbatim>\<open>publishToMastodon\<close>: the POST, and the throw for a response
  that is not \<^verbatim>\<open>ok\<close>.
\<close>

definition publishAttempt ::
  "runtime \<Rightarrow> jsstring \<Rightarrow> jsstring \<Rightarrow> jsstring \<Rightarrow> world \<Rightarrow> (error + unit) \<times> world" where
  "publishAttempt rt content mastodonInstance accessToken w =
     (let url = mastodonInstance @ js ''/api/v1/statuses'';
          w' = emit (FetchPost url accessToken content) w
      in case fetchPost rt (length (posts w)) url accessToken content of
           Inl e \<Rightarrow> (Inl e, w')
         | Inr response \<Rightarrow>
             if \<not> ok response
             then (Inl (Error (js ''Mastodon API Error: '' @ responseText response)), w')
             else (Inr (), w'))"

text \<open>\<^verbatim>\<open>publishToMastodon\<close>: the \<^verbatim>\<open>catch\<close> around the block logs only.\<close>

definition publishToMastodon ::
  "runtime \<Rightarrow> jsstring \<Rightarrow> jsstring \<Rightarrow> jsstring \<Rightarrow> world \<Rightarrow> (error + unit) \<times> world" where
  "publishToMastodon rt content mastodonInstance accessToken w =
     (case publishAttempt rt content mastodonInstance accessToken w of
        (Inl e, w') \<Rightarrow> (Inr (), w')
      | (Inr u, w') \<Rightarrow> (Inr (), w'))"

record post =
  description :: jsstring
  link :: jsstring
  pubDateUTC :: date

text \<open>The callback of \<^verbatim>\<open>items.map\<close> in \<^verbatim>\<open>fetchAllPosts\<close>.\<close>

definition itemToPost :: "runtime \<Rightarrow> jsstring \<Rightarrow> post" where
  "itemToPost rt item =
     (let descriptionHtml = orEmpty (extractElementValue item (js ''description''));
          link = orEmpty (extractElementValue item (js ''link''));
          pubDate = orEmpty (extractElementValue item (js ''pubDate''));
          pubDateUTC = dateParse rt pubDate;
          description = convertHtmlToText descriptionHtml;
          fullDescription = description @ [NEWLINE, NEWLINE] @ js ''This post was first seen on '' @ link
      in \<lparr>description = fullDescription, link = link, pubDateUTC = pubDateUTC\<rparr>)"

text \<open>\<^verbatim>\<open>isValidUrl\<close>: whether \<^verbatim>\<open>new URL(url)\<close> returns or throws.\<close>

definition isValidUrl :: "runtime \<Rightarrow> jsstring \<Rightarrow> bool" where
  "isValidUrl rt url = urlParses rt url"

text \<open>
  \<^verbatim>\<open>fetchAllPosts\<close>: the URL check throws before the \<^verbatim>\<open>try\<close>; inside it a rejected
  \<^verbatim>\<open>fetch\<close> and a response that is not \<^verbatim>\<open>ok\<close> throw, and the \<^verbatim>\<open>catch\<close> logs and throws
  the same error again.
\<close>

definition fetchAllPosts :: "runtime \<Rightarrow> jsstring \<Rightarrow> world \<Rightarrow> (error + post list) \<times> world" where
  "fetchAllPosts rt rssFeedUrl w =
     (if \<not> isValidUrl rt rssFeedUrl then (Inl (Error (js ''Invalid RSS feed URL: '' @ rssFeedUrl)), w)
      else case fetchGet rt rssFeedUrl of
             Inl e \<Rightarrow> (Inl e, emit (FetchGet rssFeedUrl) w)
           | Inr response \<Rightarrow>
               if \<not> ok response
               then (Inl (Error (js ''Failed to fetch RSS feed: '' @ statusText response)),
                     emit (FetchGet rssFeedUrl) w)
               else (Inr (map (itemToPost rt) (extractElements (responseText response) (js ''item''))),
                     emit (FetchGet rssFeedUrl) w))"

text \<open>The \<^verbatim>\<open>try\<close> block of the loop body of \<^verbatim>\<open>processPostsRecursively\<close>.\<close>

definition processPostAttempt :: "runtime \<Rightarrow> env \<Rightarrow> date \<Rightarrow> post \<Rightarrow> world \<Rightarrow> (error + unit) \<times> world" where
  "processPostAttempt rt e thirtyMinutesAgoUTC p w =
     (if dateLess (pubDateUTC p) thirtyMinutesAgoUTC then (Inr (), w)
      else case isPostAlreadyPublished rt (link p) w of
             (Inl err, w1) \<Rightarrow> (Inl err, w1)
           | (Inr published, w1) \<Rightarrow>
               if published then (Inr (), w1)
               else (case publishToMastodon rt (description p) (MASTODON_INSTANCE e) (ACCESS_TOKEN e) w1 of
                       (Inl err, w2) \<Rightarrow> (Inl err, w2)
                     | (Inr u, w2) \<Rightarrow> savePublishedPost rt (link p) w2))"

text \<open>The loop body: the \<^verbatim>\<open>catch\<close> logs, and the loop goes on with the next post.\<close>

definition processPost :: "runtime \<Rightarrow> env \<Rightarrow> date \<Rightarrow> post \<Rightarrow> world \<Rightarrow> world" where
  "processPost rt e thirtyMinutesAgoUTC p w = snd (processPostAttempt rt e thirtyMinutesAgoUTC p w)"

definition thirtyMinutesAgo :: "int \<Rightarrow> date" where
  "thirtyMinutesAgo nowUTC = timeClip (nowUTC - 30 * 60 * 1000)"

definition processPostsRecursively :: "runtime \<Rightarrow> env \<Rightarrow> post list \<Rightarrow> world \<Rightarrow> (error + unit) \<times> world" where
  "processPostsRecursively rt e ps w =
     (Inr (), foldl (\<lambda>w' p. processPost rt e (thirtyMinutesAgo (clock rt)) p w') w ps)"

text \<open>\<^verbatim>\<open>processLatestPosts\<close>: the \<^verbatim>\<open>catch\<close> logs only.\<close>

definition processLatestAttempt :: "runtime \<Rightarrow> env \<Rightarrow> world \<Rightarrow> (error + unit) \<times> world" where
  "processLatestAttempt rt e w =
     (case fetchAllPosts rt (RSS_FEED_URL e) w of
        (Inl err, w') \<Rightarrow> (Inl err, w')
      | (Inr ps, w') \<Rightarrow> if ps = [] then (Inr (), w') else processPostsRecursively rt e ps w')"

definition processLatestPosts :: "runtime \<Rightarrow> env \<Rightarrow> world \<Rightarrow> (error + unit) \<times> world" where
  "processLatestPosts rt e w =
     (case processLatestAttempt rt e w of
        (Inl err, w') \<Rightarrow> (Inr (), w')
      | (Inr u, w') \<Rightarrow> (Inr (), w'))"

section \<open>The DOM converter of \<^verbatim>\<open>src/unnamed/part_001\<close>\<close>

text \<open>
  A child node is a text node, an element with its tag name, attributes and children, or
  a node of another kind (a comment), which the converter passes over. Attribute names
  are those of a parsed HTML document, in lower case. The tag names the converter
  compares with are ASCII and have no \<^verbatim>\<open>k\<close>, the only ASCII letter that a code unit
  outside ASCII lower-cases to, so lower-casing the ASCII letters decides the comparisons.
\<close>

datatype node =
    TextNode jsstring
  | ElementNode jsstring "(jsstring \<times> jsstring) list" "node list"
  | OtherNode

definition toLowerCase :: "jsstring \<Rightarrow> jsstring" where
  "toLowerCase s = map (\<lambda>c. if 0x41 \<le> c \<and> c \<le> 0x5A then c + 0x20 else c) s"

definition getAttribute :: "(jsstring \<times> jsstring) list \<Rightarrow> jsstring \<Rightarrow> jsstring option" where
  "getAttribute attrs name = map_of attrs name"

text \<open>\<^verbatim>\<open>node.getAttribute("alt") || "Image"\<close>: \<^verbatim>\<open>null\<close> and the empty string are falsy.\<close>

definition orImage :: "jsstring option \<Rightarrow> jsstring" where
  "orImage v = (case v of None \<Rightarrow> js ''Image'' | Some s \<Rightarrow> if s = [] then js ''Image'' else s)"

fun convertHtmlToTextDom :: "node \<Rightarrow> jsstring" where
  "convertHtmlToTextDom (ElementNode elementName elementAttrs childNodes) =
     trim (concat (map (\<lambda>node.
       case node of
         TextNode textContent \<Rightarrow> textContent
       | OtherNode \<Rightarrow> []
       | ElementNode name attrs children \<Rightarrow>
           (let tagName = toLowerCase name in
            if tagName = js ''br'' then [NEWLINE]
            else if tagName = js ''p'' \<or> tagName = js ''div''
              then convertHtmlToTextDom node @ [NEWLINE, NEWLINE]
            else if tagName = js ''a'' \<and> getAttribute attrs (js ''href'') \<noteq> None
              then convertHtmlToTextDom node @ js '' (''
                     @ orEmpty (getAttribute attrs (js ''href'')) @ js '')''
            else if tagName = js ''img'' \<and> getAttribute attrs (js ''src'') \<noteq> None
              then js ''['' @ orImage (getAttribute attrs (js ''alt'')) @ js ''] (''
                     @ orEmpty (getAttribute attrs (js ''src'')) @ js '')''
            else convertHtmlToTextDom node)) childNodes))"
| "convertHtmlToTextDom (TextNode textContent) = []"
| "convertHtmlToTextDom OtherNode = []"

section \<open>Notions the properties are stated with\<close>

text \<open>A pattern that can only match where the text has \<^verbatim>\<open><\<close>.\<close>

definition startsAtLT :: "'a cont \<Rightarrow> bool" where
  "startsAtLT re \<longleftrightarrow> re [] = None \<and> (\<forall>c r. c \<noteq> LT \<longrightarrow> re (c # r) = None)"

text \<open>
  A character reference starts with \<^verbatim>\<open>&\<close> followed by \<^verbatim>\<open>#\<close> or an ASCII letter; so
  does every pattern of \<open>decodeHtmlEntities\<close>. Text without markup has neither a
  \<^verbatim>\<open><\<close>, which starts a tag, nor the start of a character reference.
\<close>

definition refStart :: "jschar \<Rightarrow> bool" where
  "refStart d \<longleftrightarrow> d = 0x23 \<or> (0x41 \<le> d \<and> d \<le> 0x5A) \<or> (0x61 \<le> d \<and> d \<le> 0x7A)"

fun noCharRef :: "jsstring \<Rightarrow> bool" where
  "noCharRef (c # d # r) \<longleftrightarrow> \<not> (c = AMP \<and> refStart d) \<and> noCharRef (d # r)"
| "noCharRef s \<longleftrightarrow> True"

definition plainText :: "jsstring \<Rightarrow> bool" where
  "plainText s \<longleftrightarrow> LT \<notin> set s \<and> noCharRef s"

definition startsAtRef :: "'a cont \<Rightarrow> bool" where
  "startsAtRef re \<longleftrightarrow>
     re [] = None \<and> (\<forall>c. re [c] = None) \<and>
     (\<forall>c d r. \<not> (c = AMP \<and> refStart d) \<longrightarrow> re (c # d # r) = None)"

text \<open>
  A block tag: an opening or closing \<^verbatim>\<open>p\<close>, \<^verbatim>\<open>div\<close> or \<^verbatim>\<open>br\<close> tag, given by whether
  it closes, its name and what stands between the name and the \<^verbatim>\<open>>\<close>.
\<close>

definition blockTag :: "bool \<times> jsstring \<times> jsstring \<Rightarrow> jsstring" where
  "blockTag t = (case t of (closing, name, attrs) \<Rightarrow>
     LT # (if closing then [0x2F] else []) @ name @ attrs @ [GT])"

definition isBlockTag :: "bool \<times> jsstring \<times> jsstring \<Rightarrow> bool" where
  "isBlockTag t = (case t of (closing, name, attrs) \<Rightarrow>
     (name = js ''p'' \<or> name = js ''div'' \<or> name = js ''br'') \<and> GT \<notin> set attrs \<and> AMP \<notin> set attrs)"

text \<open>
  The references that the literal passes of \<open>decodeHtmlEntities\<close> name, each with the
  code unit the source replaces it by.
\<close>

definition entityTable :: "(string \<times> jschar) list" where
  "entityTable =
     [(''&lt;'', 0x3C), (''&gt;'', 0x3E), (''&amp;'', 0x26), (''&quot;'', 0x22), (''&#39;'', 0x27),
      (''&rsquo;'', 0x2019), (''&lsquo;'', 0x2018), (''&ldquo;'', 0x201C), (''&rdquo;'', 0x201D),
      (''&mdash;'', 0x2014), (''&ndash;'', 0x2013), (''&copy;'', 0xA9), (''&reg;'', 0xAE),
      (''&euro;'', 0x20AC), (''&pound;'', 0xA3), (''&yen;'', 0xA5), (''&times;'', 0xD7),
      (''&divide;'', 0xF7)]"

text \<open>A pattern that can only match where the text has \<^verbatim>\<open>&\<close>.\<close>

definition startsAtAMP :: "'a cont \<Rightarrow> bool" where
  "startsAtAMP re \<longleftrightarrow> re [] = None \<and> (\<forall>c r. c \<noteq> AMP \<longrightarrow> re (c # r) = None)"

text \<open>
  An input made of chunks: a chunk is a text without \<^verbatim>\<open>&\<close>, a reference of the table, a
  decimal reference \<^verbatim>\<open>&#d...d;\<close> or a hexadecimal reference \<^verbatim>\<open>&#xh...h;\<close>, given by
  its digits. \<open>chunkSource\<close> is what the input has for the chunk and \<open>chunkText\<close> what
  the chunk stands for: the text itself, the character of the table, the code unit whose
  number the digits are. A numeric reference is taken with a value below 65536.
\<close>

datatype chunk = Plain jsstring | Named string | Decimal jsstring | Hex jsstring

fun chunkSource :: "chunk \<Rightarrow> jsstring" where
  "chunkSource (Plain s) = s"
| "chunkSource (Named r) = js r"
| "chunkSource (Decimal ds) = js ''&#'' @ ds @ js '';''"
| "chunkSource (Hex hs) = js ''&#x'' @ hs @ js '';''"

fun chunkText :: "chunk \<Rightarrow> jsstring" where
  "chunkText (Plain s) = s"
| "chunkText (Named r) = (case map_of entityTable r of None \<Rightarrow> js r | Some c \<Rightarrow> [c])"
| "chunkText (Decimal ds) = [of_int (parseDigits 10 ds)]"
| "chunkText (Hex hs) = [of_int (parseDigits 16 hs)]"

fun isChunk :: "chunk \<Rightarrow> bool" where
  "isChunk (Plain s) \<longleftrightarrow> AMP \<notin> set s"
| "isChunk (Named r) \<longleftrightarrow> r \<in> set (map fst entityTable)"
| "isChunk (Decimal ds) \<longleftrightarrow> ds \<noteq> [] \<and> (\<forall>d \<in> set ds. isDigit d) \<and> parseDigits 10 ds < 65536"
| "isChunk (Hex hs) \<longleftrightarrow> hs \<noteq> [] \<and> (\<forall>d \<in> set hs. isHexDigit d) \<and> parseDigits 16 hs < 65536"

fun isPlain :: "chunk \<Rightarrow> bool" where
  "isPlain (Plain s) = True"
| "isPlain (Named r) = False"
| "isPlain (Decimal ds) = False"
| "isPlain (Hex hs) = False"

fun isDecimal :: "chunk \<Rightarrow> bool" where
  "isDecimal (Decimal ds) = True"
| "isDecimal (Plain s) = False"
| "isDecimal (Named r) = False"
| "isDecimal (Hex hs) = False"

fun isHex :: "chunk \<Rightarrow> bool" where
  "isHex (Hex hs) = True"
| "isHex (Plain s) = False"
| "isHex (Named r) = False"
| "isHex (Decimal ds) = False"

fun digitsOf :: "chunk \<Rightarrow> jsstring" where
  "digitsOf (Decimal ds) = ds"
| "digitsOf (Hex hs) = hs"
| "digitsOf (Plain s) = []"
| "digitsOf (Named r) = []"

text \<open>
  The text between two passes: the chunks that the passes so far have decoded stand as
  their text, the others as their source.
\<close>

definition stage :: "(chunk \<Rightarrow> bool) \<Rightarrow> chunk \<Rightarrow> jsstring" where
  "stage done ch = (if done ch then chunkText ch else chunkSource ch)"

text \<open>
  The shape of a reference: \<^verbatim>\<open>&\<close>, then \<^verbatim>\<open>#\<close> or a letter, no further \<^verbatim>\<open>&\<close>, and
  one \<^verbatim>\<open>;\<close>, at the end.
\<close>

definition refShape :: "jsstring \<Rightarrow> bool" where
  "refShape x \<longleftrightarrow> (case x of [] \<Rightarrow> False | c # r \<Rightarrow>
     c = AMP \<and> r \<noteq> [] \<and> refStart (hd r) \<and> last r = 0x3B
       \<and> AMP \<notin> set r \<and> 0x3B \<notin> set (butlast r))"







section \<open>Example runs\<close>

definition okResponse :: response where
  "okResponse = \<lparr>ok = True, statusText = js ''OK'', responseText = js ''{}''\<rparr>"

definition errorResponse :: response where
  "errorResponse =
     \<lparr>ok = False, statusText = js ''Internal Server Error'', responseText = js ''boom''\<rparr>"

text \<open>
  A runtime whose feed request is answered by \<open>feed\<close> and every POST by \<open>answer\<close>, with
  a store that never fails and the clock at \<open>1700000000000\<close>.
\<close>

definition demoRuntime :: "(error + response) \<Rightarrow> (error + response) \<Rightarrow> runtime" where
  "demoRuntime feed answer =
     \<lparr>urlParses = (\<lambda>u. True), dateParse = (\<lambda>s. None), clock = 1700000000000,
      fetchGet = (\<lambda>u. feed), fetchPost = (\<lambda>n u t c. answer),
      kvGetFails = (\<lambda>n. False), kvPutFails = (\<lambda>n. False)\<rparr>"

definition demoEnv :: env where
  "demoEnv =
     \<lparr>RSS_FEED_URL = js ''https://blog.test/rss'', MASTODON_INSTANCE = js ''https://m.test'',
      ACCESS_TOKEN = js ''secret''\<rparr>"

definition emptyWorld :: world where
  "emptyWorld = \<lparr>kv = Map.empty, trace = []\<rparr>"

definition ledgerWorld :: "jsstring \<Rightarrow> world" where
  "ledgerWorld l = \<lparr>kv = [LAST_POST_KEY \<mapsto> l], trace = []\<rparr>"

definition demoPost :: "jsstring \<Rightarrow> date \<Rightarrow> post" where
  "demoPost l d = \<lparr>description = js ''news from '' @ l, link = l, pubDateUTC = d\<rparr>"

section \<open>The effects of one loop step\<close>

lemma trace_emit [simp]: "trace (emit ev w) = trace w @ [ev]"
  by (simp add: emit_def)

lemma kv_emit [simp]: "kv (emit ev w) = kv w"
  by (simp add: emit_def)

lemma posts_emit [simp]: "posts (emit ev w) = posts w @ (if isPost ev then [ev] else [])"
  by (simp add: posts_def)

lemma gets_emit [simp]: "gets (emit ev w) = gets w @ (if isGet ev then [ev] else [])"
  by (simp add: gets_def)

lemma puts_emit [simp]: "puts (emit ev w) = puts w @ (if isPut ev then [ev] else [])"
  by (simp add: puts_def)

lemma posts_kv_update [simp]: "posts (w\<lparr>kv := m\<rparr>) = posts w"
  by (simp add: posts_def)

lemma gets_kv_update [simp]: "gets (w\<lparr>kv := m\<rparr>) = gets w"
  by (simp add: gets_def)

lemma puts_kv_update [simp]: "puts (w\<lparr>kv := m\<rparr>) = puts w"
  by (simp add: puts_def)

lemma isPostAlreadyPublished_eq:
  "isPostAlreadyPublished rt l w =
     (Inr (\<not> kvGetFails rt (length (gets w)) \<and> kv w LAST_POST_KEY = Some l),
      emit (KvGet LAST_POST_KEY) w)"
  by (simp add: isPostAlreadyPublished_def kvGet_def)

text \<open>Whatever the POST is answered, \<open>publishToMastodon\<close> returns normally.\<close>

lemma publishToMastodon_eq:
  "publishToMastodon rt content inst tok w =
     (Inr (), emit (FetchPost (inst @ js ''/api/v1/statuses'') tok content) w)"
  by (simp add: publishToMastodon_def publishAttempt_def Let_def split: sum.split)

lemma savePublishedPost_eq:
  "savePublishedPost rt l w =
     (Inr (), emit (KvPut LAST_POST_KEY l)
        (if kvPutFails rt (length (puts w)) then w
         else w\<lparr>kv := (kv w)(LAST_POST_KEY \<mapsto> l)\<rparr>))"
  by (simp add: savePublishedPost_def kvPut_def)

lemma processPost_eq:
  "processPost rt e th p w =
     (if dateLess (pubDateUTC p) th then w
      else if \<not> kvGetFails rt (length (gets w)) \<and> kv w LAST_POST_KEY = Some (link p)
      then emit (KvGet LAST_POST_KEY) w
      else emit (KvPut LAST_POST_KEY (link p))
             ((if kvPutFails rt (length (puts w)) then id
               else (\<lambda>w'. w'\<lparr>kv := (kv w)(LAST_POST_KEY \<mapsto> link p)\<rparr>))
               (emit (FetchPost (MASTODON_INSTANCE e @ js ''/api/v1/statuses'') (ACCESS_TOKEN e)
                        (description p))
                 (emit (KvGet LAST_POST_KEY) w))))"
  by (simp add: processPost_def processPostAttempt_def isPostAlreadyPublished_eq
      publishToMastodon_eq savePublishedPost_eq)

section \<open>Publishing and the ledger\<close>

text \<open>
  C1. The claim: the ledger is updated for an item only after the publish of that item
  was confirmed successful. The code does otherwise: \<^verbatim>\<open>publishToMastodon\<close> throws for a
  response that is not \<^verbatim>\<open>ok\<close>, but its own \<^verbatim>\<open>catch\<close> takes the error, so the loop body
  goes on to \<^verbatim>\<open>savePublishedPost\<close>. For a post that passes the recency and the ledger
  check and whose POST is answered with a response that is not \<^verbatim>\<open>ok\<close>, the \<^verbatim>\<open>try\<close> block
  of \<^verbatim>\<open>publishToMastodon\<close> ends in the error with the remote payload, and still the step
  issues the \<^verbatim>\<open>put\<close> of the post's link and, when the \<^verbatim>\<open>put\<close> succeeds, leaves the link
  in the ledger.
\<close>

theorem ledger_written_after_failed_publish:
  assumes "\<not> dateLess (pubDateUTC p) th"
    and "kv w LAST_POST_KEY \<noteq> Some (link p)"
    and "fetchPost rt (length (posts w)) (MASTODON_INSTANCE e @ js ''/api/v1/statuses'')
           (ACCESS_TOKEN e) (description p) = Inr r"
    and "\<not> ok r"
    and "\<not> kvPutFails rt (length (puts w))"
  shows "fst (publishAttempt rt (description p) (MASTODON_INSTANCE e) (ACCESS_TOKEN e)
               (emit (KvGet LAST_POST_KEY) w))
           = Inl (Error (js ''Mastodon API Error: '' @ responseText r))
       \<and> puts (processPost rt e th p w) = puts w @ [KvPut LAST_POST_KEY (link p)]
       \<and> kv (processPost rt e th p w) LAST_POST_KEY = Some (link p)"
  using assms by (simp add: processPost_eq publishAttempt_def Let_def)

text \<open>
  The run behind it: one post of a second ago, an empty ledger, and a Mastodon API that
  answers 500 with the body \<^verbatim>\<open>boom\<close>.
\<close>

theorem ledger_written_after_failed_publish_witness:
  "puts (processPost (demoRuntime (Inl NetworkError) (Inr errorResponse)) demoEnv
            (thirtyMinutesAgo 1700000000000) (demoPost (js ''A'') (Some 1699999999000)) emptyWorld)
      = [KvPut LAST_POST_KEY (js ''A'')]
   \<and> kv (processPost (demoRuntime (Inl NetworkError) (Inr errorResponse)) demoEnv
            (thirtyMinutesAgo 1700000000000) (demoPost (js ''A'') (Some 1699999999000)) emptyWorld)
        LAST_POST_KEY = Some (js ''A'')
   \<and> fst (publishAttempt (demoRuntime (Inl NetworkError) (Inr errorResponse))
            (description (demoPost (js ''A'') (Some 1699999999000)))
            (MASTODON_INSTANCE demoEnv) (ACCESS_TOKEN demoEnv) (emit (KvGet LAST_POST_KEY) emptyWorld))
        = Inl (Error (js ''Mastodon API Error: '' @ js ''boom''))"
  using ledger_written_after_failed_publish
    [of "demoPost (js ''A'') (Some 1699999999000)" "thirtyMinutesAgo 1700000000000"
      emptyWorld "demoRuntime (Inl NetworkError) (Inr errorResponse)" demoEnv errorResponse]
  by (simp add: demoRuntime_def demoPost_def emptyWorld_def errorResponse_def thirtyMinutesAgo_def
      timeClip_def dateLess_def puts_def posts_def)

text \<open>
  C2. The claim: the publish operation raises an error that its caller can observe, carrying
  the remote payload, exactly when the response is not a success. The code does otherwise:
  for a response that is not \<^verbatim>\<open>ok\<close> the \<^verbatim>\<open>try\<close> block of \<^verbatim>\<open>publishToMastodon\<close> does
  throw \<^verbatim>\<open>Error("Mastodon API Error: " + payload)\<close>, but the function's own \<^verbatim>\<open>catch\<close>
  logs it and the function returns normally; the caller sees no error.
\<close>

theorem publishToMastodon_swallows_error:
  assumes "fetchPost rt (length (posts w)) (inst @ js ''/api/v1/statuses'') tok content = Inr r"
    and "\<not> ok r"
  shows "fst (publishAttempt rt content inst tok w)
           = Inl (Error (js ''Mastodon API Error: '' @ responseText r))
       \<and> fst (publishToMastodon rt content inst tok w) = Inr ()"
  using assms by (simp add: publishToMastodon_eq publishAttempt_def Let_def)

theorem publishToMastodon_swallows_error_witness:
  "fst (publishAttempt (demoRuntime (Inl NetworkError) (Inr errorResponse)) (js ''hello'')
          (js ''https://m.test'') (js ''secret'') emptyWorld)
      = Inl (Error (js ''Mastodon API Error: '' @ js ''boom''))
   \<and> fst (publishToMastodon (demoRuntime (Inl NetworkError) (Inr errorResponse)) (js ''hello'')
          (js ''https://m.test'') (js ''secret'') emptyWorld) = Inr ()"
  using publishToMastodon_swallows_error
    [of "demoRuntime (Inl NetworkError) (Inr errorResponse)" emptyWorld
      "js ''https://m.test''" "js ''secret''" "js ''hello''" errorResponse]
  by (simp add: demoRuntime_def errorResponse_def)

section \<open>The recency filter\<close>

text \<open>
  C3. The claim: an item is eligible exactly when its publication date is valid and not
  older than the window, so that an item with an invalid or missing date is never posted.
  The code does otherwise: its only test is \<^verbatim>\<open>post.pubDateUTC < thirtyMinutesAgoUTC\<close>,
  which is false for an invalid date, so such a post is not skipped. With the clock at
  \<open>1700000000000\<close>, an empty ledger and a Mastodon API that answers \<^verbatim>\<open>ok\<close>, the post
  with an invalid date is sent.
\<close>

theorem invalid_date_is_posted:
  "posts (processPost (demoRuntime (Inl NetworkError) (Inr okResponse)) demoEnv
            (thirtyMinutesAgo 1700000000000) (demoPost (js ''A'') None) emptyWorld)
     = [FetchPost (js ''https://m.test/api/v1/statuses'') (js ''secret'') (js ''news from A'')]"
  by (simp add: processPost_eq demoRuntime_def demoPost_def emptyWorld_def demoEnv_def
      thirtyMinutesAgo_def timeClip_def dateLess_def posts_def gets_def js_def)

text \<open>
  For a post whose publication date is a valid time value the filter is as intended: the
  post passes if and only if the date is at or after the instant thirty minutes before
  the clock reading, the boundary included. A post that is skipped has no effect at all;
  a post that passes goes on to the ledger check. The clock reading is one for which the
  instant thirty minutes earlier is a time value.
\<close>

theorem recency_filter:
  assumes "pubDateUTC p = Some t"
    and "\<bar>now - 30 * 60 * 1000\<bar> \<le> 8640000000000000"
  shows "(\<not> dateLess (pubDateUTC p) (thirtyMinutesAgo now)) = (now - 30 * 60 * 1000 \<le> t)
       \<and> (t < now - 30 * 60 * 1000 \<longrightarrow> processPost rt e (thirtyMinutesAgo now) p w = w)
       \<and> (now - 30 * 60 * 1000 \<le> t \<longrightarrow>
            gets (processPost rt e (thirtyMinutesAgo now) p w) = gets w @ [KvGet LAST_POST_KEY])"
  using assms
  by (auto simp add: processPost_eq dateLess_def thirtyMinutesAgo_def timeClip_def)

text \<open>
  At the boundary the post passes; a second earlier it is skipped and nothing happens.
\<close>

theorem recency_filter_witness:
  "\<not> dateLess (pubDateUTC (demoPost (js ''A'') (Some (1700000000000 - 30 * 60 * 1000))))
       (thirtyMinutesAgo 1700000000000)
   \<and> dateLess (pubDateUTC (demoPost (js ''A'') (Some (1700000000000 - 30 * 60 * 1000 - 1000))))
       (thirtyMinutesAgo 1700000000000)
   \<and> processPost (demoRuntime (Inl NetworkError) (Inr okResponse)) demoEnv (thirtyMinutesAgo 1700000000000)
       (demoPost (js ''A'') (Some (1700000000000 - 30 * 60 * 1000 - 1000))) emptyWorld = emptyWorld"
  using recency_filter [of "demoPost (js ''A'') (Some (1700000000000 - 30 * 60 * 1000))"
      "1700000000000 - 30 * 60 * 1000" 1700000000000]
    recency_filter [of "demoPost (js ''A'') (Some (1700000000000 - 30 * 60 * 1000 - 1000))"
      "1700000000000 - 30 * 60 * 1000 - 1000" 1700000000000
      "demoRuntime (Inl NetworkError) (Inr okResponse)" demoEnv emptyWorld]
  by (simp add: demoPost_def)

text \<open>An invalid date is never earlier than the threshold, whatever the clock.\<close>

lemma invalid_date_not_skipped: "pubDateUTC p = None \<Longrightarrow> \<not> dateLess (pubDateUTC p) th"
  by (simp add: dateLess_def)

section \<open>A failed feed request\<close>

lemma fetchAllPosts_failure:
  assumes "case fetchGet rt url of Inl err \<Rightarrow> True | Inr r \<Rightarrow> \<not> ok r"
  shows "\<exists>err. fetchAllPosts rt url w
           = (Inl err, if urlParses rt url then emit (FetchGet url) w else w)"
  using assms by (auto simp add: fetchAllPosts_def isValidUrl_def split: sum.splits)

text \<open>
  C4. When the request for the feed is rejected (a transport failure) or answered with a
  response that is not \<^verbatim>\<open>ok\<close>, the cycle returns normally, sends no POST, issues no
  \<^verbatim>\<open>get\<close> and no \<^verbatim>\<open>put\<close>, and leaves the key-value namespace as it was.
\<close>

theorem failed_fetch_aborts_cycle:
  assumes "case fetchGet rt (RSS_FEED_URL e) of Inl err \<Rightarrow> True | Inr r \<Rightarrow> \<not> ok r"
  shows "fst (processLatestPosts rt e w) = Inr ()
       \<and> posts (snd (processLatestPosts rt e w)) = posts w
       \<and> puts (snd (processLatestPosts rt e w)) = puts w
       \<and> gets (snd (processLatestPosts rt e w)) = gets w
       \<and> kv (snd (processLatestPosts rt e w)) = kv w"
proof -
  obtain err where "fetchAllPosts rt (RSS_FEED_URL e) w
      = (Inl err, if urlParses rt (RSS_FEED_URL e) then emit (FetchGet (RSS_FEED_URL e)) w else w)"
    using fetchAllPosts_failure [OF assms] by blast
  then show ?thesis
    by (simp add: processLatestPosts_def processLatestAttempt_def)
qed

text \<open>The feed answered with 500, and the feed request rejected.\<close>

theorem failed_fetch_aborts_cycle_witness:
  "fst (processLatestPosts (demoRuntime (Inr errorResponse) (Inr okResponse)) demoEnv emptyWorld) = Inr ()
   \<and> posts (snd (processLatestPosts (demoRuntime (Inr errorResponse) (Inr okResponse)) demoEnv emptyWorld)) = []
   \<and> puts (snd (processLatestPosts (demoRuntime (Inr errorResponse) (Inr okResponse)) demoEnv emptyWorld)) = []
   \<and> kv (snd (processLatestPosts (demoRuntime (Inr errorResponse) (Inr okResponse)) demoEnv emptyWorld))
       = Map.empty
   \<and> fst (processLatestPosts (demoRuntime (Inl NetworkError) (Inr okResponse)) demoEnv emptyWorld) = Inr ()
   \<and> posts (snd (processLatestPosts (demoRuntime (Inl NetworkError) (Inr okResponse)) demoEnv emptyWorld)) = []"
  using failed_fetch_aborts_cycle [of "demoRuntime (Inr errorResponse) (Inr okResponse)" demoEnv emptyWorld]
    failed_fetch_aborts_cycle [of "demoRuntime (Inl NetworkError) (Inr okResponse)" demoEnv emptyWorld]
  by (simp add: demoRuntime_def errorResponse_def emptyWorld_def posts_def puts_def)

section \<open>The ledger check\<close>

text \<open>
  C5. \<^verbatim>\<open>isPostAlreadyPublished\<close> never throws; it answers true exactly when the read
  succeeds and the stored link is the given one, so false when the read fails. A post
  whose link is the stored one, read successfully, is not sent and leaves the ledger as
  it is, whatever its date; a post with another link that passes the recency filter is
  sent.
\<close>

theorem isPostAlreadyPublished_spec:
  "fst (isPostAlreadyPublished rt l w)
      = Inr (\<not> kvGetFails rt (length (gets w)) \<and> kv w LAST_POST_KEY = Some l)
   \<and> (\<not> kvGetFails rt (length (gets w)) \<and> kv w LAST_POST_KEY = Some (link p) \<longrightarrow>
        posts (processPost rt e th p w) = posts w \<and> puts (processPost rt e th p w) = puts w
        \<and> kv (processPost rt e th p w) = kv w)
   \<and> (kv w LAST_POST_KEY \<noteq> Some (link p) \<and> \<not> dateLess (pubDateUTC p) th \<longrightarrow>
        posts (processPost rt e th p w)
          = posts w @ [FetchPost (MASTODON_INSTANCE e @ js ''/api/v1/statuses'') (ACCESS_TOKEN e)
                         (description p)])"
  by (simp add: isPostAlreadyPublished_eq processPost_eq)

text \<open>
  The ledger holds \<^verbatim>\<open>L1\<close>: the check is true for \<^verbatim>\<open>L1\<close>, false for \<^verbatim>\<open>L2\<close>, false for
  \<^verbatim>\<open>L1\<close> when the read fails; the post with link \<^verbatim>\<open>L1\<close> is not sent, the one with link
  \<^verbatim>\<open>L2\<close> is.
\<close>

theorem isPostAlreadyPublished_spec_witness:
  "fst (isPostAlreadyPublished (demoRuntime (Inl NetworkError) (Inr okResponse)) (js ''L1'')
          (ledgerWorld (js ''L1''))) = Inr True
   \<and> fst (isPostAlreadyPublished (demoRuntime (Inl NetworkError) (Inr okResponse)) (js ''L2'')
          (ledgerWorld (js ''L1''))) = Inr False
   \<and> fst (isPostAlreadyPublished
          ((demoRuntime (Inl NetworkError) (Inr okResponse))\<lparr>kvGetFails := \<lambda>n. True\<rparr>)
          (js ''L1'') (ledgerWorld (js ''L1''))) = Inr False
   \<and> posts (processPost (demoRuntime (Inl NetworkError) (Inr okResponse)) demoEnv
          (thirtyMinutesAgo 1700000000000) (demoPost (js ''L1'') (Some 1700000000000))
          (ledgerWorld (js ''L1''))) = []
   \<and> posts (processPost (demoRuntime (Inl NetworkError) (Inr okResponse)) demoEnv
          (thirtyMinutesAgo 1700000000000) (demoPost (js ''L2'') (Some 1700000000000))
          (ledgerWorld (js ''L1'')))
       = [FetchPost (js ''https://m.test/api/v1/statuses'') (js ''secret'') (js ''news from L2'')]"
  using isPostAlreadyPublished_spec
    [of "demoRuntime (Inl NetworkError) (Inr okResponse)" "js ''L1''" "ledgerWorld (js ''L1'')"
      "demoPost (js ''L1'') (Some 1700000000000)" demoEnv "thirtyMinutesAgo 1700000000000"]
    isPostAlreadyPublished_spec
    [of "demoRuntime (Inl NetworkError) (Inr okResponse)" "js ''L2''" "ledgerWorld (js ''L1'')"
      "demoPost (js ''L2'') (Some 1700000000000)" demoEnv "thirtyMinutesAgo 1700000000000"]
    isPostAlreadyPublished_spec
    [of "(demoRuntime (Inl NetworkError) (Inr okResponse))\<lparr>kvGetFails := \<lambda>n. True\<rparr>" "js ''L1''"
      "ledgerWorld (js ''L1'')" "demoPost (js ''L1'') (Some 1700000000000)" demoEnv
      "thirtyMinutesAgo 1700000000000"]
  by (simp add: demoRuntime_def ledgerWorld_def demoPost_def demoEnv_def thirtyMinutesAgo_def
      timeClip_def dateLess_def posts_def gets_def js_def)

section \<open>The ledger within one cycle\<close>

text \<open>
  C10, as stated, fails: the ledger holds one link only, so a post's link is no longer in
  it once a post with another link has been recorded. Three posts of the same minute
  with the links \<^verbatim>\<open>A\<close>, \<^verbatim>\<open>B\<close>, \<^verbatim>\<open>A\<close>, an empty ledger, and a store and an API that
  never fail: the post with link \<^verbatim>\<open>A\<close> is sent twice.
\<close>

theorem same_link_posted_twice:
  "posts (snd (processPostsRecursively (demoRuntime (Inl NetworkError) (Inr okResponse)) demoEnv
      [demoPost (js ''A'') (Some 1700000000000), demoPost (js ''B'') (Some 1700000000000),
       demoPost (js ''A'') (Some 1700000000000)] emptyWorld))
   = [FetchPost (js ''https://m.test/api/v1/statuses'') (js ''secret'') (js ''news from A''),
      FetchPost (js ''https://m.test/api/v1/statuses'') (js ''secret'') (js ''news from B''),
      FetchPost (js ''https://m.test/api/v1/statuses'') (js ''secret'') (js ''news from A'')]"
  by (simp add: processPostsRecursively_def processPost_eq demoRuntime_def emptyWorld_def demoPost_def
      demoEnv_def thirtyMinutesAgo_def timeClip_def dateLess_def posts_def gets_def puts_def js_def
      LAST_POST_KEY_def emit_def)

text \<open>
  While the ledger holds a link and the reads succeed, posts that bear this link or are
  too old are passed over, and the ledger keeps the link.
\<close>

lemma skipped_run:
  assumes "\<forall>n. \<not> kvGetFails rt n"
    and "kv w LAST_POST_KEY = Some l"
    and "\<forall>m \<in> set ms. link m = l \<or> dateLess (pubDateUTC m) th"
  shows "posts (foldl (\<lambda>w' p. processPost rt e th p w') w ms) = posts w
       \<and> kv (foldl (\<lambda>w' p. processPost rt e th p w') w ms) LAST_POST_KEY = Some l"
  using assms
proof (induction ms arbitrary: w)
  case Nil
  then show ?case by simp
next
  case (Cons m ms)
  have step: "posts (processPost rt e th m w) = posts w
      \<and> kv (processPost rt e th m w) LAST_POST_KEY = Some l"
    using Cons.prems by (auto simp add: processPost_eq)
  have "posts (foldl (\<lambda>w' p. processPost rt e th p w') (processPost rt e th m w) ms)
          = posts (processPost rt e th m w)
      \<and> kv (foldl (\<lambda>w' p. processPost rt e th p w') (processPost rt e th m w) ms) LAST_POST_KEY
          = Some l"
    using Cons.IH [of "processPost rt e th m w"] Cons.prems step by simp
  then show ?case using step by simp
qed

text \<open>
  C10, amended. Within one cycle, when the reads and writes of the store succeed and a
  post is published and its link recorded, a later post bearing the same link is passed
  over by the ledger check and not sent again, provided that no post with another link
  was recorded in between: every post between the two bears the same link or is older
  than thirty minutes. Of the whole run only the first post is sent, and the ledger ends
  with its link.
\<close>

theorem same_link_skipped_while_ledger_holds_it:
  assumes "\<forall>n. \<not> kvGetFails rt n"
    and "\<forall>n. \<not> kvPutFails rt n"
    and "\<not> dateLess (pubDateUTC p) (thirtyMinutesAgo (clock rt))"
    and "kv w LAST_POST_KEY \<noteq> Some (link p)"
    and "\<forall>m \<in> set mid. link m = link p \<or> dateLess (pubDateUTC m) (thirtyMinutesAgo (clock rt))"
    and "link q = link p"
  shows "posts (snd (processPostsRecursively rt e (p # mid @ [q]) w))
           = posts w @ [FetchPost (MASTODON_INSTANCE e @ js ''/api/v1/statuses'') (ACCESS_TOKEN e)
                          (description p)]
       \<and> kv (snd (processPostsRecursively rt e (p # mid @ [q]) w)) LAST_POST_KEY = Some (link p)"
proof -
  let ?th = "thirtyMinutesAgo (clock rt)"
  let ?w1 = "processPost rt e ?th p w"
  have first: "posts ?w1 = posts w @ [FetchPost (MASTODON_INSTANCE e @ js ''/api/v1/statuses'')
                                        (ACCESS_TOKEN e) (description p)]
      \<and> kv ?w1 LAST_POST_KEY = Some (link p)"
    using assms(2,3,4) by (simp add: processPost_eq)
  have all: "\<forall>m \<in> set (mid @ [q]). link m = link p \<or> dateLess (pubDateUTC m) ?th"
    using assms(5,6) by auto
  have "posts (foldl (\<lambda>w' p. processPost rt e ?th p w') ?w1 (mid @ [q])) = posts ?w1
      \<and> kv (foldl (\<lambda>w' p. processPost rt e ?th p w') ?w1 (mid @ [q])) LAST_POST_KEY
          = Some (link p)"
    using skipped_run [OF assms(1) _ all] first by blast
  then show ?thesis
    using first by (simp add: processPostsRecursively_def)
qed

text \<open>
  The posts \<^verbatim>\<open>A\<close>, an old \<^verbatim>\<open>B\<close>, \<^verbatim>\<open>A\<close>, \<^verbatim>\<open>A\<close> on an empty ledger: one POST, for the
  first.
\<close>

theorem same_link_skipped_while_ledger_holds_it_witness:
  "posts (snd (processPostsRecursively (demoRuntime (Inl NetworkError) (Inr okResponse)) demoEnv
      (demoPost (js ''A'') (Some 1700000000000) #
         [demoPost (js ''B'') (Some 0), demoPost (js ''A'') (Some 1700000000000)] @
         [demoPost (js ''A'') (Some 1700000000000)]) emptyWorld))
   = [FetchPost (js ''https://m.test/api/v1/statuses'') (js ''secret'') (js ''news from A'')]"
  using same_link_skipped_while_ledger_holds_it
    [of "demoRuntime (Inl NetworkError) (Inr okResponse)" "demoPost (js ''A'') (Some 1700000000000)"
      emptyWorld "[demoPost (js ''B'') (Some 0), demoPost (js ''A'') (Some 1700000000000)]"
      "demoPost (js ''A'') (Some 1700000000000)" demoEnv]
  by (simp add: demoRuntime_def emptyWorld_def demoPost_def demoEnv_def thirtyMinutesAgo_def
      timeClip_def dateLess_def posts_def js_def)

section \<open>Text without markup\<close>

lemma canonicalize_LT: "canonicalize c = LT \<longleftrightarrow> c = LT"
  by (auto simp add: canonicalize_def diff_eq_eq)

lemma litCI_needs_LT: "c \<noteq> LT \<Longrightarrow> litCI (LT # p) k (c # r) = None"
  using canonicalize_LT [of c] by (auto simp add: litCI_def canonicalize_def)

lemma litCI_Nil: "p \<noteq> [] \<Longrightarrow> litCI p k [] = None"
  by (auto simp add: litCI_def)

lemma startsAtLT_reBlock: "startsAtLT reBlock"
  by (simp add: startsAtLT_def reBlock_def Let_def lit_def)

lemma startsAtLT_reTag: "startsAtLT reTag"
  by (simp add: startsAtLT_def reTag_def lit_def)

lemma startsAtLT_reAnchor: "startsAtLT reAnchor"
  by (simp add: startsAtLT_def reAnchor_def js_def litCI_Nil litCI_needs_LT)

lemma startsAtLT_reImg: "startsAtLT reImg"
  by (simp add: startsAtLT_def reImg_def js_def litCI_Nil litCI_needs_LT)

lemma replaceAll_skip:
  assumes "startsAtLT re" and "LT \<notin> set s"
  shows "replaceAll re f (s @ t) = s @ replaceAll re f t"
  using assms by (induction s) (auto simp add: startsAtLT_def)

lemma replaceAll_id:
  assumes "startsAtLT re" and "LT \<notin> set s"
  shows "replaceAll re f s = s"
proof -
  have "replaceAll re f [] = []"
    using assms(1) by (simp add: startsAtLT_def)
  then show ?thesis
    using replaceAll_skip [OF assms, of f "[]"] by simp
qed

lemma convertTags_plain: "LT \<notin> set s \<Longrightarrow> convertTags s = trim s"
  by (simp add: convertTags_def replaceAll_id startsAtLT_reBlock startsAtLT_reTag
      startsAtLT_reAnchor startsAtLT_reImg)

lemma startsAtRef_lit: "refStart d0 \<Longrightarrow> startsAtRef (lit (AMP # d0 # p) k)"
  by (auto simp add: startsAtRef_def lit_def)

lemma startsAtRef_reLiteral: "refStart d0 \<Longrightarrow> startsAtRef (reLiteral (AMP # d0 # p))"
  by (simp add: reLiteral_def startsAtRef_lit)

lemma startsAtRef_reDecimalRef: "startsAtRef reDecimalRef"
  by (simp add: reDecimalRef_def js_def startsAtRef_lit refStart_def)

lemma startsAtRef_reHexRef: "startsAtRef reHexRef"
  by (simp add: reHexRef_def js_def startsAtRef_lit refStart_def)

lemma replaceAll_noCharRef:
  assumes "startsAtRef re" and "noCharRef s"
  shows "replaceAll re f s = s"
  using assms(2) assms(1)
  by (induction s rule: noCharRef.induct) (simp_all add: startsAtRef_def)

lemma decodeHtmlEntities_plain: "noCharRef s \<Longrightarrow> decodeHtmlEntities s = s"
  by (simp add: decodeHtmlEntities_def replaceLiteral_def js_def replaceAll_noCharRef
      startsAtRef_reLiteral startsAtRef_reDecimalRef startsAtRef_reHexRef refStart_def)

lemma noCharRef_no_AMP: "AMP \<notin> set s \<Longrightarrow> noCharRef s"
  by (induction s rule: noCharRef.induct) auto

lemma convertHtmlToText_plain: "plainText s \<Longrightarrow> convertHtmlToText s = trim s"
  by (simp add: convertHtmlToText_def plainText_def decodeHtmlEntities_plain convertTags_plain)

lemma noCharRef_tl: "noCharRef (x # zs) \<Longrightarrow> noCharRef zs"
  by (cases zs) simp_all

lemma noCharRef_append_right: "noCharRef (xs @ ys) \<Longrightarrow> noCharRef ys"
  by (induction xs) (auto dest: noCharRef_tl)

lemma noCharRef_append_left: "noCharRef (xs @ ys) \<Longrightarrow> noCharRef xs"
  by (induction xs rule: noCharRef.induct) simp_all

lemma noCharRef_append: "noCharRef (xs @ ys) \<Longrightarrow> noCharRef xs \<and> noCharRef ys"
  using noCharRef_append_left noCharRef_append_right by blast

lemma noCharRef_dropWhile: "noCharRef s \<Longrightarrow> noCharRef (dropWhile P s)"
  using noCharRef_append [of "takeWhile P s" "dropWhile P s"] by simp

lemma noCharRef_drop_end: "noCharRef s \<Longrightarrow> noCharRef (rev (dropWhile P (rev s)))"
proof -
  assume a: "noCharRef s"
  have "s = rev (dropWhile P (rev s)) @ rev (takeWhile P (rev s))"
    by (metis rev_append rev_rev_ident takeWhile_dropWhile_id)
  then show ?thesis using a noCharRef_append by metis
qed

lemma set_trim: "set (trim s) \<subseteq> set s"
proof -
  have "set (rev (dropWhile isTrimSpace (rev t))) \<subseteq> set t" for t
    by (metis set_dropWhileD set_rev subsetI)
  moreover have "set (dropWhile isTrimSpace s) \<subseteq> set s"
    by (meson set_dropWhileD subsetI)
  ultimately show ?thesis
    unfolding trim_def by blast
qed

lemma plainText_trim: "plainText s \<Longrightarrow> plainText (trim s)"
proof -
  assume a: "plainText s"
  have "noCharRef (trim s)"
    unfolding trim_def using a by (simp add: plainText_def noCharRef_dropWhile noCharRef_drop_end)
  then show ?thesis using a set_trim [of s] by (auto simp add: plainText_def)
qed

lemma dropWhile_after_drop_end:
  assumes "t = [] \<or> \<not> P (hd t)"
  shows "dropWhile P (rev (dropWhile P (rev t))) = rev (dropWhile P (rev t))"
proof (cases t)
  case Nil
  then show ?thesis by simp
next
  case (Cons x xs)
  then have "\<not> P x" using assms by simp
  then show ?thesis using Cons by (simp add: dropWhile_append)
qed

lemma trim_trim: "trim (trim s) = trim s"
proof -
  have "dropWhile isTrimSpace (rev (dropWhile isTrimSpace (rev (dropWhile isTrimSpace s))))
          = rev (dropWhile isTrimSpace (rev (dropWhile isTrimSpace s)))"
    by (rule dropWhile_after_drop_end) (use hd_dropWhile [of isTrimSpace s] in blast)
  then show ?thesis
    by (simp add: trim_def)
qed

text \<open>
  C9. On a string without markup, that is with no \<^verbatim>\<open><\<close> and no \<^verbatim>\<open>&\<close> that starts a
  character reference, \<open>convertHtmlToText\<close> is idempotent: every pass but the trim leaves
  such a string as it is, the trim keeps it without markup, and trimming twice is
  trimming once.
\<close>

theorem convertHtmlToText_idempotent_on_plain_text:
  "plainText s \<Longrightarrow> convertHtmlToText (convertHtmlToText s) = convertHtmlToText s"
  by (simp add: convertHtmlToText_plain plainText_trim trim_trim)

theorem convertHtmlToText_idempotent_on_plain_text_witness:
  "plainText (js ''  Tom & Jerry > Spike  '')
   \<and> convertHtmlToText (convertHtmlToText (js ''  Tom & Jerry > Spike  ''))
       = convertHtmlToText (js ''  Tom & Jerry > Spike  '')"
proof -
  have h: "plainText (js ''  Tom & Jerry > Spike  '')"
    by (simp add: plainText_def js_def refStart_def)
  show ?thesis
    using h convertHtmlToText_idempotent_on_plain_text [OF h] by simp
qed

section \<open>Entity decoding\<close>


lemma replaceAll_skip_AMP:
  assumes "startsAtAMP re" and "AMP \<notin> set s"
  shows "replaceAll re f (s @ t) = s @ replaceAll re f t"
  using assms by (induction s) (auto simp add: startsAtAMP_def)

lemma capStar_run:
  assumes "\<forall>d \<in> set ds. P d" and "\<not> P x" and "k (acc @ ds) (x # r) = Some y"
  shows "capStar P k acc (ds @ x # r) = Some y"
  using assms by (induction ds arbitrary: acc) simp_all

lemma reDecimalRef_match:
  assumes "ds \<noteq> []" and "\<forall>d \<in> set ds. isDigit d"
  shows "reDecimalRef (AMP # 0x23 # ds @ 0x3B # t) = Some (ds, t)"
proof -
  have "capStar isDigit (\<lambda>g. if g = [] then (\<lambda>s. None) else lit [0x3B] (\<lambda>rest. Some (g, rest))) []
          (ds @ 0x3B # t) = Some (ds, t)"
    using assms by (intro capStar_run) (simp_all add: isDigit_def lit_def)
  then show ?thesis
    by (simp add: reDecimalRef_def capPlus_def lit_def js_def)
qed

lemma reHexRef_match:
  assumes "hs \<noteq> []" and "\<forall>d \<in> set hs. isHexDigit d"
  shows "reHexRef (AMP # 0x23 # 0x78 # hs @ 0x3B # t) = Some (hs, t)"
proof -
  have "capStar isHexDigit (\<lambda>g. if g = [] then (\<lambda>s. None) else lit [0x3B] (\<lambda>rest. Some (g, rest))) []
          (hs @ 0x3B # t) = Some (hs, t)"
    using assms by (intro capStar_run) (simp_all add: isHexDigit_def lit_def)
  then show ?thesis
    by (simp add: reHexRef_def capPlus_def lit_def js_def)
qed

lemma reDecimalRef_hex: "reDecimalRef (AMP # 0x23 # 0x78 # r) = None"
  by (simp add: reDecimalRef_def capPlus_def lit_def js_def isDigit_def)

lemma digit_not_AMP: "isDigit d \<Longrightarrow> d \<noteq> AMP"
  by (auto simp add: isDigit_def)

lemma hexDigit_not_AMP: "isHexDigit d \<Longrightarrow> d \<noteq> AMP"
  by (auto simp add: isHexDigit_def)

lemma isDigit_isHexDigit: "isDigit d \<Longrightarrow> isHexDigit d"
  by (simp add: isDigit_def isHexDigit_def)

lemma fromCharCode_small: "n < 65536 \<Longrightarrow> fromCharCode n = [of_int n]"
  by (simp add: fromCharCode_def toNumber_def)

lemma refShape_table: "\<forall>r \<in> set (map fst entityTable). refShape (js r)"
  by (simp add: entityTable_def js_def refShape_def refStart_def)

lemma distinct_table: "distinct (map fst entityTable)"
  by (simp add: entityTable_def)

lemma numeric_table:
  "\<forall>(r, c) \<in> set entityTable. take 2 (js r) = js ''&#'' \<longrightarrow> js r = js ''&#39;'' \<and> c = 0x27"
  by (simp add: entityTable_def js_def)


lemma js_inj: "js a = js b \<Longrightarrow> a = b"
proof (induction a arbitrary: b)
  case Nil
  then show ?case by (simp add: js_def)
next
  case (Cons x xs)
  then obtain y ys where b: "b = y # ys" by (cases b) (auto simp add: js_def)
  have "(of_nat (of_char x) :: jschar) = of_nat (of_char y)"
    using Cons.prems b by (simp add: js_def)
  then have "unat (of_nat (of_char x) :: jschar) = unat (of_nat (of_char y) :: jschar)"
    by simp
  moreover have "(of_char c :: nat) mod 65536 = of_char c" for c
    by (rule mod_less) (use nat_of_char_less_256 [of c] in linarith)
  ultimately have "(of_char x :: nat) = of_char y"
    by (simp add: unat_of_nat)
  then have "x = y" by simp
  moreover have "xs = ys" using Cons b by (simp add: js_def)
  ultimately show ?case using b by simp
qed

lemma refShape_parts:
  assumes "refShape x"
  obtains d body where "x = AMP # body @ [0x3B]" and "0x3B \<notin> set body" and "AMP \<notin> set body"
    and "body @ [0x3B] = d # tl (body @ [0x3B])" and "refStart d"
proof -
  obtain r where r: "x = AMP # r" "r \<noteq> []" "refStart (hd r)" "last r = 0x3B" "AMP \<notin> set r"
      "0x3B \<notin> set (butlast r)"
    using assms by (auto simp add: refShape_def split: list.splits)
  have b: "r = butlast r @ [0x3B]"
    using r(2,4) by (metis append_butlast_last_id)
  have "AMP \<notin> set (butlast r)"
    using r(5) by (meson in_set_butlastD)
  moreover have "butlast r @ [0x3B] = hd r # tl (butlast r @ [0x3B])"
    using b r(2) by (metis list.collapse)
  ultimately show ?thesis
    using that [of "butlast r" "hd r"] r b by metis
qed

lemma digit_not_semicolon: "isHexDigit d \<Longrightarrow> d \<noteq> 0x3B"
  by (auto simp add: isHexDigit_def)

lemma refShape_chunk:
  assumes "isChunk ch" and "\<not> isPlain ch"
  shows "refShape (chunkSource ch)"
proof (cases ch)
  case (Plain s)
  then show ?thesis using assms by simp
next
  case (Named r)
  then have "r \<in> set (map fst entityTable)" using assms by simp
  with refShape_table have "refShape (js r)" by blast
  then show ?thesis using Named by simp
next
  case (Decimal ds)
  then have "AMP \<notin> set ds" "0x3B \<notin> set ds"
    using assms digit_not_AMP digit_not_semicolon isDigit_isHexDigit by auto
  then show ?thesis using Decimal
    by (simp add: js_def refShape_def refStart_def butlast_append)
next
  case (Hex hs)
  then have "AMP \<notin> set hs" "0x3B \<notin> set hs"
    using assms hexDigit_not_AMP digit_not_semicolon by auto
  then show ?thesis using Hex
    by (simp add: js_def refShape_def refStart_def butlast_append)
qed

text \<open>Of two references that start at the same place, one is the other.\<close>

lemma same_start:
  assumes "a \<notin> set xs" and "a \<notin> set ys" and "take (length (xs @ [a])) (ys @ a # rest) = xs @ [a]"
  shows "xs = ys"
  using assms
proof (induction xs arbitrary: ys)
  case Nil
  then show ?case by (cases ys) auto
next
  case (Cons x xs)
  then show ?case by (cases ys) auto
qed

lemma lit_refShape:
  assumes "refShape q" and "refShape x"
  shows "lit q k (x @ rest) = (if x = q then k rest else None)"
proof -
  obtain dq bq where q: "q = AMP # bq @ [0x3B]" "0x3B \<notin> set bq"
    using assms(1) by (rule refShape_parts)
  obtain dx bx where x: "x = AMP # bx @ [0x3B]" "0x3B \<notin> set bx"
    using assms(2) by (rule refShape_parts)
  show ?thesis
  proof (cases "x = q")
    case True
    then show ?thesis by (simp add: lit_def)
  next
    case False
    have "take (length q) (x @ rest) \<noteq> q"
    proof
      assume "take (length q) (x @ rest) = q"
      then have "take (length (bq @ [0x3B])) (bx @ 0x3B # rest) = bq @ [0x3B]"
        using q x by simp
      then have "bq = bx"
        using same_start [OF q(2) x(2)] by blast
      then show False using False q x by simp
    qed
    then show ?thesis using False by (simp add: lit_def)
  qed
qed

text \<open>What a chunk that is not a text begins with, before and after it is decoded.\<close>

lemma chunkText_single:
  assumes "isChunk ch" and "\<not> isPlain ch"
  shows "\<exists>c. chunkText ch = [c]"
proof (cases ch)
  case (Named r)
  then have "r \<in> fst ` set entityTable" using assms by simp
  then obtain c where "map_of entityTable r = Some c"
    by (metis domD dom_map_of_conv_image_fst)
  then show ?thesis using Named by simp
qed (use assms in simp_all)

lemma stage_Plain: "stage done (Plain s) = s"
  by (simp add: stage_def)

lemma stage_done: "done ch \<Longrightarrow> stage done ch = chunkText ch"
  by (simp add: stage_def)

lemma stage_not_done: "\<not> done ch \<Longrightarrow> stage done ch = chunkSource ch"
  by (simp add: stage_def)

lemma stage_head:
  assumes "\<forall>ch \<in> set cs. isChunk ch"
  shows "(concat (map (stage done) cs) = [] \<and> concat (map chunkText cs) = [])
    \<or> (\<exists>d r d' r'. concat (map (stage done) cs) = d # r \<and> concat (map chunkText cs) = d' # r'
          \<and> (d = AMP \<or> d = d'))"
  using assms
proof (induction cs)
  case Nil
  then show ?case by simp
next
  case (Cons ch cs)
  show ?case
  proof (cases "isPlain ch")
    case True
    then obtain s where s: "ch = Plain s" by (cases ch) simp_all
    show ?thesis
    proof (cases s)
      case Nil
      then show ?thesis using s Cons by (simp add: stage_Plain)
    next
      case (Cons a list)
      then show ?thesis using s by (simp add: stage_Plain)
    qed
  next
    case False
    have v: "isChunk ch" using Cons.prems by simp
    obtain c where c: "chunkText ch = [c]"
      using chunkText_single [OF v False] by blast
    obtain d body where b: "chunkSource ch = AMP # body @ [0x3B]"
      using refShape_chunk [OF v False] by (rule refShape_parts)
    show ?thesis
      using c b by (cases "done ch") (simp_all add: stage_done stage_not_done)
  qed
qed

lemma startsAtRef_startsAtAMP: "startsAtRef re \<Longrightarrow> startsAtAMP re"
  unfolding startsAtRef_def startsAtAMP_def
  by (metis list.exhaust)

lemma re_after_AMP:
  assumes "startsAtRef re" and "\<forall>ch \<in> set cs. isChunk ch"
    and "noCharRef (AMP # concat (map chunkText cs))"
  shows "re (AMP # concat (map (stage done) cs)) = None"
proof -
  have A: "\<not> refStart AMP" by (simp add: refStart_def)
  from stage_head [OF assms(2), of "done"] show ?thesis
  proof
    assume "concat (map (stage done) cs) = [] \<and> concat (map chunkText cs) = []"
    then have e: "concat (map (stage done) cs) = []" ..
    have "re [AMP] = None" using assms(1) by (simp add: startsAtRef_def)
    then show ?thesis unfolding e .
  next
    assume "\<exists>d r d' r'. concat (map (stage done) cs) = d # r \<and> concat (map chunkText cs) = d' # r'
          \<and> (d = AMP \<or> d = d')"
    then obtain d r d' r' where h: "concat (map (stage done) cs) = d # r"
        "concat (map chunkText cs) = d' # r'" "d = AMP \<or> d = d'"
      by blast
    have "\<not> refStart d'" using assms(3) h(2) by simp
    then have "\<not> refStart d" using h(3) A by auto
    then show ?thesis using assms(1) h(1) by (simp add: startsAtRef_def)
  qed
qed

text \<open>
  One pass over a text made of chunks, some of them decoded already: the pass decodes
  the chunks it matches and leaves the others.
\<close>

lemma replaceAll_stage:
  assumes re: "startsAtRef re"
    and hit: "\<And>ch rest. isChunk ch \<Longrightarrow> \<not> isPlain ch \<Longrightarrow> \<not> done ch \<Longrightarrow>
        re (chunkSource ch @ rest) = (if hit ch then Some (g ch, rest) else None)
        \<and> (hit ch \<longrightarrow> f (g ch) = chunkText ch)"
    and valid: "\<forall>ch \<in> set cs. isChunk ch"
    and out: "noCharRef (concat (map chunkText cs))"
  shows "replaceAll re f (concat (map (stage done) cs))
         = concat (map (stage (\<lambda>ch. done ch \<or> hit ch)) cs)"
  using valid out
proof (induction cs)
  case Nil
  then show ?case using re by (simp add: startsAtRef_def)
next
  case (Cons ch cs)
  note amp = startsAtRef_startsAtAMP [OF re]
  have v: "isChunk ch" and vs: "\<forall>ch \<in> set cs. isChunk ch"
    using Cons.prems(1) by simp_all
  have o: "noCharRef (chunkText ch @ concat (map chunkText cs))"
    using Cons.prems(2) by simp
  then have os: "noCharRef (concat (map chunkText cs))"
    by (rule noCharRef_append_right)
  note IH = Cons.IH [OF vs os]
  let ?R = "concat (map (stage done) cs)"
  show ?case
  proof (cases "isPlain ch")
    case True
    then obtain s where s: "ch = Plain s" by (cases ch) simp_all
    then have "AMP \<notin> set s" using v by simp
    then show ?thesis
      using s IH replaceAll_skip_AMP [OF amp, of s f ?R] by (simp add: stage_Plain)
  next
    case False
    obtain d body where b: "chunkSource ch = AMP # body @ [0x3B]" "AMP \<notin> set body"
      using refShape_chunk [OF v False] by (rule refShape_parts)
    have nb: "AMP \<notin> set (body @ [0x3B])" using b(2) by simp
    show ?thesis
    proof (cases "done ch")
      case True
      obtain c where c: "chunkText ch = [c]"
        using chunkText_single [OF v False] by blast
      have "re (c # ?R) = None"
      proof (cases "c = AMP")
        case True
        then show ?thesis using re_after_AMP [OF re vs, of "done"] o c by simp
      next
        case False
        then show ?thesis using amp by (simp add: startsAtAMP_def)
      qed
      then show ?thesis using True c IH by (simp add: stage_done)
    next
      case nd: False
      note h = hit [OF v False nd]
      show ?thesis
      proof (cases "hit ch")
        case True
        then have "re (AMP # body @ 0x3B # ?R) = Some (g ch, ?R)" "f (g ch) = chunkText ch"
          using h [of ?R] b by simp_all
        then show ?thesis using True nd b IH by (simp add: stage_done stage_not_done)
      next
        case nh: False
        then have "re (AMP # body @ 0x3B # ?R) = None"
          using h [of ?R] b by simp
        then have "replaceAll re f (AMP # body @ 0x3B # ?R)
            = AMP # replaceAll re f ((body @ [0x3B]) @ ?R)"
          by simp
        also have "\<dots> = AMP # (body @ [0x3B]) @ replaceAll re f ?R"
          using replaceAll_skip_AMP [OF amp nb] by simp
        finally show ?thesis using nh nd b IH by (simp add: stage_not_done)
      qed
    qed
  qed
qed


text \<open>The pass of one reference of the table.\<close>

lemma table_refStart:
  assumes "(r, c) \<in> set entityTable"
  obtains d0 p where "js r = AMP # d0 # p" and "refStart d0"
proof -
  have "r \<in> set (map fst entityTable)" using assms by force
  with refShape_table have "refShape (js r)" by blast
  then obtain d body where b: "js r = AMP # body @ [0x3B]"
      "body @ [0x3B] = d # tl (body @ [0x3B])" "refStart d"
    by (rule refShape_parts)
  then show ?thesis using that [of d "tl (body @ [0x3B])"] by simp
qed

lemma table_text:
  assumes e: "(r, c) \<in> set entityTable" and v: "isChunk ch" and s: "chunkSource ch = js r"
  shows "chunkText ch = [c]"
proof (cases ch)
  case (Plain x)
  obtain d0 p where "js r = AMP # d0 # p"
    using e by (rule table_refStart)
  then show ?thesis using Plain v s by auto
next
  case (Named r')
  then have "r' = r" using s js_inj by simp
  then have "map_of entityTable r' = Some c"
    using e distinct_table by simp
  then show ?thesis using Named by simp
next
  case (Decimal ds)
  then have "take 2 (js r) = js ''&#''"
    using s [symmetric] by (simp add: js_def)
  then have "js r = js ''&#39;''" and c: "c = 0x27"
    using numeric_table e by blast+
  then have "ds = js ''39''"
    using Decimal s by (simp add: js_def)
  then show ?thesis using Decimal c by (simp add: js_def parseDigits_def digitValue_def)
next
  case (Hex hs)
  then have "take 2 (js r) = js ''&#''"
    using s [symmetric] by (simp add: js_def)
  then have "js r = js ''&#39;''"
    using numeric_table e by blast
  then show ?thesis using Hex s by (simp add: js_def)
qed

lemma replaceLiteral_stage:
  assumes e: "(r, c) \<in> set entityTable"
    and valid: "\<forall>ch \<in> set cs. isChunk ch"
    and out: "noCharRef (concat (map chunkText cs))"
  shows "replaceLiteral (js r) [c] (concat (map (stage done) cs))
         = concat (map (stage (\<lambda>ch. done ch \<or> chunkSource ch = js r)) cs)"
proof -
  obtain d0 p where "js r = AMP # d0 # p" and "refStart d0"
    using e by (rule table_refStart)
  then have re: "startsAtRef (reLiteral (js r))"
    using startsAtRef_reLiteral by simp
  have "r \<in> set (map fst entityTable)" using e by force
  with refShape_table have q: "refShape (js r)" by blast
  have hit: "reLiteral (js r) (chunkSource ch @ rest)
        = (if chunkSource ch = js r then Some ((), rest) else None)
      \<and> (chunkSource ch = js r \<longrightarrow> [c] = chunkText ch)"
    if "isChunk ch" "\<not> isPlain ch" "\<not> done ch" for ch rest
  proof (intro conjI impI)
    show "reLiteral (js r) (chunkSource ch @ rest)
        = (if chunkSource ch = js r then Some ((), rest) else None)"
      unfolding reLiteral_def by (rule lit_refShape [OF q refShape_chunk [OF that(1,2)]])
  next
    assume "chunkSource ch = js r"
    then show "[c] = chunkText ch"
      using table_text [OF e that(1)] by simp
  qed
  show ?thesis
    unfolding replaceLiteral_def
    by (rule replaceAll_stage [OF re hit valid out])
qed

lemma literal_passes:
  assumes "set es \<subseteq> set entityTable"
    and valid: "\<forall>ch \<in> set cs. isChunk ch"
    and out: "noCharRef (concat (map chunkText cs))"
  shows "foldl (\<lambda>s pass. pass s) (concat (map (stage done) cs))
           (map (\<lambda>(r, c). replaceLiteral (js r) [c]) es)
         = concat (map (stage (\<lambda>ch. done ch \<or> chunkSource ch \<in> set (map (js \<circ> fst) es))) cs)"
  using assms(1)
proof (induction es arbitrary: "done")
  case Nil
  then show ?case by simp
next
  case (Cons e es)
  obtain r c where e: "e = (r, c)" by (cases e)
  then have t: "(r, c) \<in> set entityTable" and sub: "set es \<subseteq> set entityTable"
    using Cons.prems by simp_all
  have p: "(\<lambda>ch. (done ch \<or> chunkSource ch = js r) \<or> chunkSource ch \<in> set (map (js \<circ> fst) es))
      = (\<lambda>ch. done ch \<or> chunkSource ch \<in> set (map (js \<circ> fst) (e # es)))"
    using e by auto
  show ?case
    using Cons.IH [OF sub, of "\<lambda>ch. done ch \<or> chunkSource ch = js r"]
      replaceLiteral_stage [OF t valid out, of "done"] e p
    by simp
qed

text \<open>The two numeric passes, after the passes of the table.\<close>

lemma decimal_pass:
  assumes named: "\<And>ch. isChunk ch \<Longrightarrow> \<not> isPlain ch \<Longrightarrow> \<not> isDecimal ch \<Longrightarrow> \<not> isHex ch \<Longrightarrow> done ch"
    and valid: "\<forall>ch \<in> set cs. isChunk ch"
    and out: "noCharRef (concat (map chunkText cs))"
  shows "replaceAll reDecimalRef (\<lambda>dec. fromCharCode (parseDigits 10 dec))
           (concat (map (stage done) cs))
         = concat (map (stage (\<lambda>ch. done ch \<or> isDecimal ch)) cs)"
proof -
  have hit: "reDecimalRef (chunkSource ch @ rest)
        = (if isDecimal ch then Some (digitsOf ch, rest) else None)
      \<and> (isDecimal ch \<longrightarrow> fromCharCode (parseDigits 10 (digitsOf ch)) = chunkText ch)"
    if "isChunk ch" "\<not> isPlain ch" "\<not> done ch" for ch rest
  proof (cases ch)
    case (Plain s)
    then show ?thesis using that by simp
  next
    case (Named r)
    then show ?thesis using that named [of ch] by simp
  next
    case (Decimal ds)
    then have "ds \<noteq> []" "\<forall>d \<in> set ds. isDigit d" "parseDigits 10 ds < 65536"
      using that(1) by simp_all
    then show ?thesis
      using Decimal reDecimalRef_match [of ds rest] by (simp add: js_def fromCharCode_small)
  next
    case (Hex hs)
    then show ?thesis using reDecimalRef_hex by (simp add: js_def)
  qed
  show ?thesis
    by (rule replaceAll_stage [OF startsAtRef_reDecimalRef hit valid out])
qed

lemma hex_pass:
  assumes named: "\<And>ch. isChunk ch \<Longrightarrow> \<not> isPlain ch \<Longrightarrow> \<not> isHex ch \<Longrightarrow> done ch"
    and valid: "\<forall>ch \<in> set cs. isChunk ch"
    and out: "noCharRef (concat (map chunkText cs))"
  shows "replaceAll reHexRef (\<lambda>hex. fromCharCode (parseDigits 16 hex))
           (concat (map (stage done) cs))
         = concat (map (stage (\<lambda>ch. done ch \<or> isHex ch)) cs)"
proof -
  have hit: "reHexRef (chunkSource ch @ rest)
        = (if isHex ch then Some (digitsOf ch, rest) else None)
      \<and> (isHex ch \<longrightarrow> fromCharCode (parseDigits 16 (digitsOf ch)) = chunkText ch)"
    if "isChunk ch" "\<not> isPlain ch" "\<not> done ch" for ch rest
  proof (cases ch)
    case (Plain s)
    then show ?thesis using that by simp
  next
    case (Named r)
    then show ?thesis using that named [of ch] by simp
  next
    case (Decimal ds)
    then show ?thesis using that named [of ch] by simp
  next
    case (Hex hs)
    then have "hs \<noteq> []" "\<forall>d \<in> set hs. isHexDigit d" "parseDigits 16 hs < 65536"
      using that(1) by simp_all
    then show ?thesis
      using Hex reHexRef_match [of hs rest] by (simp add: js_def fromCharCode_small)
  qed
  show ?thesis
    by (rule replaceAll_stage [OF startsAtRef_reHexRef hit valid out])
qed

lemma decodeHtmlEntities_passes:
  "decodeHtmlEntities s =
     replaceAll reHexRef (\<lambda>hex. fromCharCode (parseDigits 16 hex))
       (replaceAll reDecimalRef (\<lambda>dec. fromCharCode (parseDigits 10 dec))
         (foldl (\<lambda>s pass. pass s) s (map (\<lambda>(r, c). replaceLiteral (js r) [c]) entityTable)))"
  by (simp add: decodeHtmlEntities_def entityTable_def)

lemma decodeHtmlEntities_chunks:
  assumes valid: "\<forall>ch \<in> set cs. isChunk ch"
    and out: "noCharRef (concat (map chunkText cs))"
  shows "decodeHtmlEntities (concat (map chunkSource cs)) = concat (map chunkText cs)"
proof -
  let ?d1 = "\<lambda>ch. False \<or> chunkSource ch \<in> set (map (js \<circ> fst) entityTable)"
  let ?d2 = "\<lambda>ch. ?d1 ch \<or> isDecimal ch"
  let ?d3 = "\<lambda>ch. ?d2 ch \<or> isHex ch"
  have "stage (\<lambda>ch. False) = chunkSource"
    by (rule ext) (simp add: stage_def)
  then have start: "concat (map chunkSource cs) = concat (map (stage (\<lambda>ch. False)) cs)"
    by simp
  have n: "?d1 ch" if "isChunk ch" "\<not> isPlain ch" "\<not> isDecimal ch" "\<not> isHex ch" for ch
    using that by (cases ch) auto
  have p1: "foldl (\<lambda>s pass. pass s) (concat (map chunkSource cs))
           (map (\<lambda>(r, c). replaceLiteral (js r) [c]) entityTable)
      = concat (map (stage ?d1) cs)"
    unfolding start by (rule literal_passes [OF subset_refl valid out])
  have p2: "replaceAll reDecimalRef (\<lambda>dec. fromCharCode (parseDigits 10 dec))
           (concat (map (stage ?d1) cs)) = concat (map (stage ?d2) cs)"
    by (rule decimal_pass [OF n valid out])
  have p3: "replaceAll reHexRef (\<lambda>hex. fromCharCode (parseDigits 16 hex))
           (concat (map (stage ?d2) cs)) = concat (map (stage ?d3) cs)"
    by (rule hex_pass [OF _ valid out]) (use n in blast)
  have "stage ?d3 ch = chunkText ch" if "isChunk ch" for ch
    using that n [of ch] by (cases ch) (simp_all add: stage_def)
  then have m: "map (stage ?d3) cs = map chunkText cs"
    using valid by simp
  show ?thesis
    unfolding decodeHtmlEntities_passes p1 p2 p3 m by (rule refl)
qed






section \<open>Block tags\<close>


lemma star_notGt_close:
  "GT \<notin> set a \<Longrightarrow> star notGt (lit [GT] (\<lambda>rest. Some (g, rest))) (a @ GT # r) = Some (g, r)"
  by (induction a) (simp_all add: lit_def notGt_def)

lemma reBlock_blockTag:
  assumes "isBlockTag t"
  shows "reBlock (blockTag t @ r) = Some ((), r)"
proof -
  obtain closing name attrs where t: "t = (closing, name, attrs)"
    by (cases t) auto
  then have a: "GT \<notin> set attrs"
    and n: "name = js ''p'' \<or> name = js ''div'' \<or> name = js ''br''"
    using assms by (auto simp add: isBlockTag_def)
  note close = star_notGt_close [OF a, of "()" r]
  from n consider (p) "name = js ''p''" | (div) "name = js ''div''" | (br) "name = js ''br''"
    by blast
  then show ?thesis
  proof cases
    case p
    then show ?thesis using close
      by (cases closing) (simp_all add: t blockTag_def reBlock_def Let_def lit_def alt_def js_def)
  next
    case div
    then show ?thesis using close
      by (cases closing) (simp_all add: t blockTag_def reBlock_def Let_def lit_def alt_def js_def)
  next
    case br
    then show ?thesis using close
      by (cases closing) (simp_all add: t blockTag_def reBlock_def Let_def lit_def alt_def js_def)
  qed
qed

lemma replaceAll_blockTag:
  assumes "isBlockTag t"
  shows "replaceAll reBlock f (blockTag t @ r) = f () @ replaceAll reBlock f r"
proof -
  obtain x where x: "blockTag t @ r = LT # x @ r"
    by (cases t) (simp add: blockTag_def)
  show ?thesis
    using reBlock_blockTag [OF assms, of r] by (simp add: x)
qed

lemma replaceAll_blockTags:
  assumes "\<forall>t \<in> set ts. isBlockTag t"
  shows "replaceAll reBlock f (concat (map blockTag ts) @ r)
           = concat (map (\<lambda>t. f ()) ts) @ replaceAll reBlock f r"
  using assms by (induction ts) (simp_all add: replaceAll_blockTag)







section \<open>Images\<close>

text \<open>
  C8. The claim: every image element that carries a source URL is converted to
  \<^verbatim>\<open>[alt] (src)\<close>, with \<^verbatim>\<open>Image\<close> for a missing \<^verbatim>\<open>alt\<close>. The pattern of
  \<open>convertHtmlToText\<close> matches an image tag only when a double-quoted \<^verbatim>\<open>alt\<close> attribute
  stands before the \<^verbatim>\<open>src\<close> attribute: an image without \<^verbatim>\<open>alt\<close>, and one whose
  \<^verbatim>\<open>src\<close> comes first, is not converted and is then removed by the pass that strips the
  remaining tags.
\<close>

theorem img_converted_only_with_alt_before_src:
  "convertHtmlToText (js ''<img src='' @ [QUOTE] @ js ''http://x.test/i.png'' @ [QUOTE] @ js ''>'') = []
   \<and> convertHtmlToText
        (js ''<img src='' @ [QUOTE] @ js ''u'' @ [QUOTE] @ js '' alt='' @ [QUOTE] @ js ''x'' @ [QUOTE] @ js ''>'')
       = []
   \<and> convertHtmlToText
        (js ''<img alt='' @ [QUOTE] @ js ''x'' @ [QUOTE] @ js '' src='' @ [QUOTE] @ js ''u'' @ [QUOTE] @ js ''>'')
       = js ''[x] (u)''"
proof -
  let ?a = "js ''<img src='' @ [QUOTE] @ js ''http://x.test/i.png'' @ [QUOTE] @ js ''>''"
  let ?b = "js ''<img src='' @ [QUOTE] @ js ''u'' @ [QUOTE] @ js '' alt='' @ [QUOTE] @ js ''x'' @ [QUOTE] @ js ''>''"
  let ?c = "js ''<img alt='' @ [QUOTE] @ js ''x'' @ [QUOTE] @ js '' src='' @ [QUOTE] @ js ''u'' @ [QUOTE] @ js ''>''"
  have d: "decodeHtmlEntities ?a = ?a" "decodeHtmlEntities ?b = ?b" "decodeHtmlEntities ?c = ?c"
    by (intro decodeHtmlEntities_plain noCharRef_no_AMP; simp add: js_def)+
  have ta: "convertTags ?a = []"
    by code_simp
  have tb: "convertTags ?b = []"
    by code_simp
  have tc: "convertTags ?c = js ''[x] (u)''"
    by code_simp
  show ?thesis
    by (simp only: convertHtmlToText_def d ta tb tc simp_thms)
qed

text \<open>
  The DOM converter of \<^verbatim>\<open>src/unnamed/part_001\<close> does what C8 says: an \<^verbatim>\<open>img\<close> child
  with a \<^verbatim>\<open>src\<close> attribute contributes \<^verbatim>\<open>[alt] (src)\<close>, with \<^verbatim>\<open>Image\<close> when \<^verbatim>\<open>alt\<close> is
  missing or empty.
\<close>

theorem dom_img_conversion:
  assumes "toLowerCase name = js ''img''" and "getAttribute attrs (js ''src'') = Some src"
  shows "convertHtmlToTextDom (ElementNode parent parentAttrs [ElementNode name attrs children])
     = trim (js ''['' @ orImage (getAttribute attrs (js ''alt'')) @ js ''] ('' @ src @ js '')'')"
  using assms by (simp add: Let_def js_def orEmpty_def)

theorem dom_img_conversion_witness:
  "convertHtmlToTextDom (ElementNode (js ''BODY'') [] [ElementNode (js ''IMG'') [(js ''src'', js ''u'')] []])
     = js ''[Image] (u)''"
  using dom_img_conversion [of "js ''IMG''" "[(js ''src'', js ''u'')]" "js ''u''" "js ''BODY''" "[]" "[]"]
  by (simp add: toLowerCase_def getAttribute_def orImage_def js_def trim_def isTrimSpace_def)

text \<open>The DOM converter does not collapse line breaks either.\<close>

lemma dom_br_not_collapsed:
  "convertHtmlToTextDom (ElementNode (js ''BODY'') []
      [TextNode (js ''a''), ElementNode (js ''BR'') [] [], ElementNode (js ''BR'') [] [],
       ElementNode (js ''BR'') [] [], TextNode (js ''b'')])
     = js ''a'' @ [NEWLINE, NEWLINE, NEWLINE] @ js ''b''"
  by (simp add: toLowerCase_def js_def trim_def isTrimSpace_def)

section \<open>Further properties\<close>

text \<open>
  The pattern of the block pass has no \<^verbatim>\<open>i\<close> flag: an upper-case \<^verbatim>\<open><BR>\<close> is not a
  block tag; the pass that strips the remaining tags removes it and leaves no newline.
\<close>

theorem upper_case_br_leaves_no_newline:
  "convertHtmlToText (js ''a<BR>b'') = js ''ab''"
proof -
  have "decodeHtmlEntities (js ''a<BR>b'') = js ''a<BR>b''"
    by (intro decodeHtmlEntities_plain noCharRef_no_AMP) (simp add: js_def)
  moreover have "convertTags (js ''a<BR>b'') = js ''ab''"
    by code_simp
  ultimately show ?thesis
    by (simp only: convertHtmlToText_def)
qed

text \<open>
  A \<^verbatim>\<open><\<close> that comes from a reference is markup for the passes behind the decoder:
  from a decoded \<^verbatim>\<open>&lt;\<close> to a decoded \<^verbatim>\<open>&gt;\<close> the text is stripped as a tag, with
  the newline of the \<^verbatim>\<open><br>\<close> between them.
\<close>

theorem decoded_lt_read_as_tag:
  "convertHtmlToText (js ''1 &lt; 2<br>3 &gt; 2'') = js ''1  2''"
proof -
  have "decodeHtmlEntities (js ''1 &lt; 2<br>3 &gt; 2'') = js ''1 < 2<br>3 > 2''"
    using decodeHtmlEntities_chunks [of "[Plain (js ''1 ''), Named ''&lt;'', Plain (js '' 2<br>3 ''),
        Named ''&gt;'', Plain (js '' 2'')]"]
    by (simp add: entityTable_def js_def refStart_def)
  moreover have "convertTags (js ''1 < 2<br>3 > 2'') = js ''1  2''"
    by code_simp
  ultimately show ?thesis
    by (simp only: convertHtmlToText_def)
qed

text \<open>
  With a character reference in it a text is not left alone: an escaped reference is
  decoded once per application, so a second application changes the result again.
\<close>

theorem escaped_reference_decoded_once_per_pass:
  "convertHtmlToText (js ''&amp;lt;'') = js ''&lt;''
   \<and> convertHtmlToText (convertHtmlToText (js ''&amp;lt;'')) = js ''<''"
  by (intro conjI; code_simp)

text \<open>
  A match of the element pattern takes at least one code unit, so the loop of
  \<open>extractElements\<close> always moves on.
\<close>

lemma litCI_Some:
  "litCI p k s = Some r \<Longrightarrow> k (drop (length p) s) = Some r \<and> length p \<le> length s"
  by (auto simp add: litCI_def split: if_splits dest: arg_cong [where f = length])

lemma star_Some: "star P k s = Some r \<Longrightarrow> \<exists>s'. k s' = Some r \<and> length s' \<le> length s"
proof (induction s)
  case Nil
  then show ?case by auto
next
  case (Cons c cs)
  then show ?case
    by (fastforce split: if_splits option.splits)
qed

lemma capLazy_Some:
  "capLazy P k acc s = Some r \<Longrightarrow> \<exists>acc' s'. k acc' s' = Some r \<and> length s' \<le> length s"
proof (induction s arbitrary: acc)
  case Nil
  then show ?case by auto
next
  case (Cons c cs)
  then show ?case
    by (fastforce split: if_splits option.splits)
qed

lemma reElement_consumes:
  assumes "reElement tagName s = Some (g, rest)"
  shows "length rest < length s"
proof -
  define close :: "jsstring \<Rightarrow> (jsstring \<times> jsstring) cont"
    where "close = (\<lambda>inner. litCI (js ''</'' @ tagName @ [GT]) (\<lambda>rest. Some (inner, rest)))"
  define k3 where "k3 = capLazy anyChar close []"
  define k2 where "k2 = litCI [GT] k3"
  define k1 where "k1 = star notGt k2"
  have re: "reElement tagName = litCI (LT # tagName) k1"
    by (simp add: reElement_def k1_def k2_def k3_def close_def)
  note a1 = litCI_Some [OF assms [unfolded re]]
  have 1: "star notGt k2 (drop (length (LT # tagName)) s) = Some (g, rest)"
    and l1: "length (LT # tagName) \<le> length s"
    using a1 by (simp_all add: k1_def)
  obtain s2 where 2: "litCI [GT] k3 s2 = Some (g, rest)"
    and l2: "length s2 \<le> length (drop (length (LT # tagName)) s)"
    using star_Some [OF 1] unfolding k2_def by auto
  note a3 = litCI_Some [OF 2]
  have 3: "capLazy anyChar close [] (drop (length [GT]) s2) = Some (g, rest)"
    using a3 by (simp add: k3_def)
  obtain acc s4 where 4: "litCI (js ''</'' @ tagName @ [GT]) (\<lambda>rest. Some (acc, rest)) s4 = Some (g, rest)"
    and l4: "length s4 \<le> length (drop (length [GT]) s2)"
    using capLazy_Some [OF 3] unfolding close_def by auto
  note a5 = litCI_Some [OF 4]
  have "rest = drop (length (js ''</'' @ tagName @ [GT])) s4"
    using a5 by simp
  then have "length rest \<le> length s4" by simp
  then show ?thesis using l1 l2 l4 by simp
qed

end
